theory Spec2Isabelle
  imports Complex_Main "HOL-Library.Log_Nat"
begin

section \<open>The command low-pass pre-filter of the notebook\<close>

text \<open>
  The only executable code of \<^verbatim>\<open>Discrete_Implementation.ipynb\<close> is its last cell, which
  sets up a sample period \<^verbatim>\<open>Ts\<close> and a time constant \<^verbatim>\<open>tau_n\<close>, computes the two filter
  coefficients \<^verbatim>\<open>kmlp\<close> and \<^verbatim>\<open>kelp\<close>, builds a step input \<^verbatim>\<open>x\<close> and runs the recursion
  over it. The coefficient lines and the loop are embedded twice. The first embedding
  evaluates them in exact arithmetic over the real numbers: it fixes which expression is
  computed at which index, which rounding does not change. The second evaluates every
  operation as Python and numpy do, in IEEE 754 binary64 arithmetic with rounding to
  nearest, ties to even, overflow to an infinity and NaN; what depends on the values the
  code computes is stated about that one.
\<close>

datatype error =
  ZeroDivisionError | OverflowError | ValueError | MemoryError | InvalidConfiguration

subsection \<open>The cell in exact arithmetic\<close>

text \<open>Python's \<^verbatim>\<open>a / b\<close> on floats, without rounding.\<close>

definition truediv :: "real \<Rightarrow> real \<Rightarrow> error + real" where
  "truediv a b = (if b = 0 then Inl ZeroDivisionError else Inr (a / b))"

text \<open>
  The two coefficient lines
  \<^verbatim>\<open>kmlp = (2*tau_n - Ts)/(Ts + 2*tau_n)\<close> and \<^verbatim>\<open>kelp = Ts/(Ts + 2*tau_n)\<close>.
\<close>

definition prefilter_coefficients :: "real \<Rightarrow> real \<Rightarrow> error + real \<times> real" where
  "prefilter_coefficients Ts tau_n =
     (case truediv (2 * tau_n - Ts) (Ts + 2 * tau_n) of
        Inl err \<Rightarrow> Inl err
      | Inr kmlp \<Rightarrow>
          (case truediv Ts (Ts + 2 * tau_n) of
             Inl err \<Rightarrow> Inl err
           | Inr kelp \<Rightarrow> Inr (kmlp, kelp)))"

text \<open>
  The body of the loop \<^verbatim>\<open>for i, val in enumerate(x)\<close>: nothing at index 0, and
  \<^verbatim>\<open>y[i] = y[i-1]*kmlp + kelp*(x[i] + x[i-1])\<close> at every other index. The array \<^verbatim>\<open>y\<close> is
  the state the loop updates in place; it has the length of \<^verbatim>\<open>x\<close>, so every index read
  or written is in range.
\<close>

definition filter_body :: "real \<Rightarrow> real \<Rightarrow> real list \<Rightarrow> nat \<Rightarrow> real list \<Rightarrow> real list" where
  "filter_body km ke x i y =
     (if i = 0 then y
      else y[i := y ! (i - 1) * km + ke * (x ! i + x ! (i - 1))])"

text \<open>The loop, started on \<^verbatim>\<open>y = np.zeros_like(x)\<close>.\<close>

definition filter_loop :: "real \<Rightarrow> real \<Rightarrow> real list \<Rightarrow> real list" where
  "filter_loop km ke x =
     fold (filter_body km ke x) [0..<length x] (replicate (length x) 0)"

subsection \<open>The pre-filter as the specification words it\<close>

text \<open>
  The specification describes the same recursion as a component \<^verbatim>\<open>CommandPreFilter\<close> that
  stores the previous input and output and is called once per sample: it returns
  \<^verbatim>\<open>y_n = k_yLP * y_{n-1} + k_xLP * (x_n + x_{n-1})\<close> and commits \<^verbatim>\<open>x_{n-1} <- x_n\<close>,
  \<^verbatim>\<open>y_{n-1} <- y_n\<close>. This second definition follows those words, to be compared with
  the loop of the notebook.
\<close>

record prefilter_coeffs =
  k_yLP :: real
  k_xLP :: real

record prefilter_state =
  prev_input :: real
  prev_output :: real

definition spec_CommandPreFilter_update ::
  "prefilter_coeffs \<Rightarrow> prefilter_state \<Rightarrow> real \<Rightarrow> real \<times> prefilter_state" where
  "spec_CommandPreFilter_update c s x_n =
     (let y_n = k_yLP c * prev_output s + k_xLP c * (x_n + prev_input s)
      in (y_n, \<lparr>prev_input = x_n, prev_output = y_n\<rparr>))"

subsection \<open>Binary64 numbers\<close>

text \<open>
  The binade of a non-zero real \<open>x\<close>: the integer \<open>e\<close> with \<open>2^e \<le> |x| < 2^(e+1)\<close>,
  computed from the bit length of an integer part.
\<close>

definition exponent :: "real \<Rightarrow> int" where
  "exponent x = (if 1 \<le> \<bar>x\<bar> then bitlen \<lfloor>\<bar>x\<bar>\<rfloor> - 1 else - bitlen (\<lceil>1 / \<bar>x\<bar>\<rceil> - 1))"

text \<open>Rounding of a real to the nearest integer, a tie going to the even neighbour.\<close>

definition round_half_even :: "real \<Rightarrow> int" where
  "round_half_even r =
     (let f = \<lfloor>r\<rfloor>; d = r - of_int f
      in if d < 1 / 2 then f else if 1 / 2 < d then f + 1 else if even f then f else f + 1)"

text \<open>
  A binary64 number has a significand of 53 bits and an exponent of at least \<open>-1022\<close>: in
  the binade of \<open>x\<close> the representable numbers are the integer multiples of
  \<open>2^(e - 52)\<close>, and below \<open>2^(-1022)\<close> (the subnormal numbers) the multiples of
  \<open>2^(-1074)\<close>.
\<close>

definition quantum :: "real \<Rightarrow> int" where
  "quantum x = max (exponent x) (- 1022) - 52"

text \<open>Rounding to nearest, ties to even, before the check for overflow.\<close>

definition round_binary64 :: "real \<Rightarrow> real" where
  "round_binary64 x =
     (if x = 0 then 0
      else of_int (round_half_even (x / 2 powi quantum x)) * 2 powi quantum x)"

text \<open>
  A float of Python or numpy: a finite value, an infinity or NaN. The two zeros of IEEE 754
  are one value here: they compare equal, and no operation of the cell tells them apart
  (a division by either raises).
\<close>

datatype double = Finite real | PlusInf | MinusInf | NaN

text \<open>
  The result of an operation whose exact value is \<open>r\<close>: the rounded value, or an infinity
  when rounding reaches \<open>2^1024\<close>, beyond the largest binary64 exponent 1023.
\<close>

definition binary64 :: "real \<Rightarrow> double" where
  "binary64 r =
     (let v = round_binary64 r
      in if exponent v < 1024 then Finite v else if 0 < v then PlusInf else MinusInf)"

text \<open>Negation, addition, subtraction and multiplication of floats (IEEE 754).\<close>

fun float_neg :: "double \<Rightarrow> double" where
  "float_neg (Finite a) = Finite (- a)"
| "float_neg PlusInf = MinusInf"
| "float_neg MinusInf = PlusInf"
| "float_neg NaN = NaN"

fun float_add :: "double \<Rightarrow> double \<Rightarrow> double" where
  "float_add (Finite a) (Finite b) = binary64 (a + b)"
| "float_add NaN _ = NaN"
| "float_add _ NaN = NaN"
| "float_add PlusInf MinusInf = NaN"
| "float_add MinusInf PlusInf = NaN"
| "float_add PlusInf _ = PlusInf"
| "float_add MinusInf _ = MinusInf"
| "float_add _ PlusInf = PlusInf"
| "float_add _ MinusInf = MinusInf"

definition float_sub :: "double \<Rightarrow> double \<Rightarrow> double" where
  "float_sub a b = float_add a (float_neg b)"

definition signed_inf :: "bool \<Rightarrow> double" where
  "signed_inf positive = (if positive then PlusInf else MinusInf)"

fun float_mul :: "double \<Rightarrow> double \<Rightarrow> double" where
  "float_mul (Finite a) (Finite b) = binary64 (a * b)"
| "float_mul NaN _ = NaN"
| "float_mul _ NaN = NaN"
| "float_mul (Finite a) PlusInf = (if a = 0 then NaN else signed_inf (0 < a))"
| "float_mul (Finite a) MinusInf = (if a = 0 then NaN else signed_inf (a < 0))"
| "float_mul PlusInf (Finite b) = (if b = 0 then NaN else signed_inf (0 < b))"
| "float_mul MinusInf (Finite b) = (if b = 0 then NaN else signed_inf (b < 0))"
| "float_mul PlusInf PlusInf = PlusInf"
| "float_mul PlusInf MinusInf = MinusInf"
| "float_mul MinusInf PlusInf = MinusInf"
| "float_mul MinusInf MinusInf = PlusInf"

text \<open>
  Python's \<^verbatim>\<open>a / b\<close> on floats: a zero divisor raises \<^verbatim>\<open>ZeroDivisionError\<close> whatever the
  dividend is; every other case follows IEEE 754.
\<close>

fun float_truediv :: "double \<Rightarrow> double \<Rightarrow> error + double" where
  "float_truediv a (Finite b) =
     (if b = 0 then Inl ZeroDivisionError
      else Inr (case a of
                  Finite a' \<Rightarrow> binary64 (a' / b)
                | PlusInf \<Rightarrow> signed_inf (0 < b)
                | MinusInf \<Rightarrow> signed_inf (b < 0)
                | NaN \<Rightarrow> NaN))"
| "float_truediv a NaN = Inr NaN"
| "float_truediv (Finite a) _ = Inr (Finite 0)"
| "float_truediv _ _ = Inr NaN"

subsection \<open>The cell in binary64 arithmetic\<close>

text \<open>
  The two coefficient lines
  \<^verbatim>\<open>kmlp = (2*tau_n - Ts)/(Ts + 2*tau_n)\<close> and \<^verbatim>\<open>kelp = Ts/(Ts + 2*tau_n)\<close>, operation by
  operation; the integer 2 is converted to the float 2.0.
\<close>

definition float_prefilter_coefficients :: "double \<Rightarrow> double \<Rightarrow> error + double \<times> double" where
  "float_prefilter_coefficients Ts tau_n =
     (case float_truediv (float_sub (float_mul (Finite 2) tau_n) Ts)
             (float_add Ts (float_mul (Finite 2) tau_n)) of
        Inl err \<Rightarrow> Inl err
      | Inr kmlp \<Rightarrow>
          (case float_truediv Ts (float_add Ts (float_mul (Finite 2) tau_n)) of
             Inl err \<Rightarrow> Inl err
           | Inr kelp \<Rightarrow> Inr (kmlp, kelp)))"

text \<open>The right-hand side of the assignment \<^verbatim>\<open>y[i] = y[i-1]*kmlp + kelp*(x[i] + x[i-1])\<close>.\<close>

definition float_update :: "double \<Rightarrow> double \<Rightarrow> double \<Rightarrow> double \<Rightarrow> double \<Rightarrow> double" where
  "float_update km ke y_prev x_n x_prev =
     float_add (float_mul y_prev km) (float_mul ke (float_add x_n x_prev))"

text \<open>
  The body of the loop \<^verbatim>\<open>for i, val in enumerate(x)\<close> and the loop, started on
  \<^verbatim>\<open>y = np.zeros_like(x)\<close>; numpy warns on overflow and on an invalid operation and goes on
  with the infinity or NaN.
\<close>

definition float_filter_body ::
  "double \<Rightarrow> double \<Rightarrow> double list \<Rightarrow> nat \<Rightarrow> double list \<Rightarrow> double list" where
  "float_filter_body km ke x i y =
     (if i = 0 then y
      else y[i := float_update km ke (y ! (i - 1)) (x ! i) (x ! (i - 1))])"

definition float_filter_loop :: "double \<Rightarrow> double \<Rightarrow> double list \<Rightarrow> double list" where
  "float_filter_loop km ke x =
     fold (float_filter_body km ke x) [0..<length x] (replicate (length x) (Finite 0))"

text \<open>
  Python's \<^verbatim>\<open>int(q)\<close> on a float: truncation towards zero; an infinity raises
  \<^verbatim>\<open>OverflowError\<close> and NaN raises \<^verbatim>\<open>ValueError\<close>.
\<close>

fun py_int :: "double \<Rightarrow> error + int" where
  "py_int (Finite r) = Inr (if 0 \<le> r then \<lfloor>r\<rfloor> else \<lceil>r\<rceil>)"
| "py_int NaN = Inl ValueError"
| "py_int _ = Inl OverflowError"

record filter_params =
  total_samples :: int
  samples_off :: int
  kmlp :: double
  kelp :: double

text \<open>
  The set-up part of the cell, from \<^verbatim>\<open>T_settle = 8*tau_n\<close> to the coefficients, with
  \<^verbatim>\<open>Ts\<close> and \<^verbatim>\<open>tau_n\<close> as parameters (the notebook fixes them to \<^verbatim>\<open>1/10_000\<close> and
  \<^verbatim>\<open>0.25\<close>):
  \<^verbatim>\<open>total_samples = int((T_on + T_settle)/Ts)\<close>, \<^verbatim>\<open>samples_off = int(T_on/Ts)\<close>,
  \<^verbatim>\<open>t_arr = np.linspace(0, total_samples*Ts, total_samples)\<close>, then the two coefficient
  lines. No line validates its inputs: the failures are the ones Python and numpy raise by
  themselves. \<^verbatim>\<open>np.linspace\<close> raises \<^verbatim>\<open>ValueError\<close> for a negative number of samples;
  for a number of samples beyond what the machine can allocate, the parameter
  \<open>capacity\<close>, it raises \<^verbatim>\<open>MemoryError\<close> (or another exception beyond the largest size
  of an array, which the model does not tell apart).
\<close>

definition float_filter_setup :: "int \<Rightarrow> double \<Rightarrow> double \<Rightarrow> error + filter_params" where
  "float_filter_setup capacity Ts tau_n =
     (let T_settle = float_mul (Finite 8) tau_n; T_on = Finite 1 in
      case float_truediv (float_add T_on T_settle) Ts of
        Inl err \<Rightarrow> Inl err
      | Inr q1 \<Rightarrow>
      (case py_int q1 of
        Inl err \<Rightarrow> Inl err
      | Inr n_total \<Rightarrow>
      (case float_truediv T_on Ts of
        Inl err \<Rightarrow> Inl err
      | Inr q2 \<Rightarrow>
      (case py_int q2 of
        Inl err \<Rightarrow> Inl err
      | Inr n_off \<Rightarrow>
          if n_total < 0 then Inl ValueError
          else if capacity < n_total then Inl MemoryError
          else
            (case float_prefilter_coefficients Ts tau_n of
               Inl err \<Rightarrow> Inl err
             | Inr (km, ke) \<Rightarrow>
                 Inr \<lparr>total_samples = n_total, samples_off = n_off,
                      kmlp = km, kelp = ke\<rparr>)))))"

section \<open>The discrete PID controller\<close>

text \<open>
  The notebook derives the controller's difference equations in its text cells
  (``Total Controller'' and ``Anti-Windup'') and holds no code for them. The definitions
  of this section are therefore written from the specification's section 4.1, whose
  equations are the ones of those cells.
\<close>

text \<open>
  Modelled from the spec: the controller's coefficients and configuration (section 3),
  fixed at construction.
\<close>

record pid_config =
  kp :: real
  k_ei :: real
  k_md :: real
  k_ed :: real
  output_limit :: real
  hard_saturate :: bool

text \<open>
  Modelled from the spec: the controller's runtime state (section 3), the integral term
  \<^verbatim>\<open>m_I\<close>, the last output of the derivative filter \<^verbatim>\<open>m_D\<close> and the last error.
\<close>

record pid_state =
  integral_term :: real
  deriv_term :: real
  prev_error :: real

text \<open>
  Modelled from the spec: the coefficient computation of section 4.3, absent from the
  notebook. \<^verbatim>\<open>k_ei = ki*T/2\<close>, \<^verbatim>\<open>k_md = (2 - T*wp)/(T*wp + 2)\<close>,
  \<^verbatim>\<open>k_ed = 2*wp*kd/(T*wp + 2)\<close>; it fails when the denominator \<^verbatim>\<open>T*wp + 2\<close> is not
  positive.
\<close>

definition pid_coefficients :: "real \<Rightarrow> real \<Rightarrow> real \<Rightarrow> real \<Rightarrow> error + real \<times> real \<times> real" where
  "pid_coefficients kI kD wp T =
     (if T * wp + 2 \<le> 0 then Inl InvalidConfiguration
      else Inr (kI * T / 2, (2 - T * wp) / (T * wp + 2), 2 * wp * kD / (T * wp + 2)))"

text \<open>
  Modelled from the spec: the construction of a \<^verbatim>\<open>DiscretePID\<close>, absent from the
  notebook. It fails if \<^verbatim>\<open>T <= 0\<close>, \<^verbatim>\<open>wp <= 0\<close> or \<^verbatim>\<open>output_limit <= 0\<close>. The hard
  saturation of the returned value is optional in the specification and is a flag here.
\<close>

definition DiscretePID_new ::
  "real \<Rightarrow> real \<Rightarrow> real \<Rightarrow> real \<Rightarrow> real \<Rightarrow> real \<Rightarrow> bool \<Rightarrow> error + pid_config" where
  "DiscretePID_new kP kI kD wp T limit hard =
     (if T \<le> 0 \<or> wp \<le> 0 \<or> limit \<le> 0 then Inl InvalidConfiguration
      else
        (case pid_coefficients kI kD wp T of
           Inl err \<Rightarrow> Inl err
         | Inr (kei, kmd, ked) \<Rightarrow>
             Inr \<lparr>kp = kP, k_ei = kei, k_md = kmd, k_ed = ked,
                  output_limit = limit, hard_saturate = hard\<rparr>))"

text \<open>Modelled from the spec: the runtime state starts at zero (section 3).\<close>

definition pid_initial :: pid_state where
  "pid_initial = \<lparr>integral_term = 0, deriv_term = 0, prev_error = 0\<rparr>"

text \<open>
  Modelled from the spec: step 2 of the update, absent from the notebook as code. The
  derivative term \<^verbatim>\<open>m_D_n = k_md * m_D_{n-1} + k_ed * (e_n - e_{n-1})\<close> is always
  computed, whatever the clamp decides.
\<close>

definition deriv_next :: "pid_config \<Rightarrow> pid_state \<Rightarrow> real \<Rightarrow> real" where
  "deriv_next c s e_n = k_md c * deriv_term s + k_ed c * (e_n - prev_error s)"

text \<open>
  Modelled from the spec: steps 1 and 3, the tentative output
  \<^verbatim>\<open>m_P + m_I_{n-1} + m_D_n\<close> with \<^verbatim>\<open>m_P = kp * e_n\<close>; it uses the integral term
  committed by the previous call.
\<close>

definition m_tentative :: "pid_config \<Rightarrow> pid_state \<Rightarrow> real \<Rightarrow> real" where
  "m_tentative c s e_n = kp c * e_n + integral_term s + deriv_next c s e_n"

text \<open>Modelled from the spec: step 4, \<^verbatim>\<open>saturating = |m_tentative| > output_limit\<close>.\<close>

definition saturating :: "pid_config \<Rightarrow> pid_state \<Rightarrow> real \<Rightarrow> bool" where
  "saturating c s e_n = (\<bar>m_tentative c s e_n\<bar> > output_limit c)"

text \<open>
  Modelled from the spec: step 5, \<^verbatim>\<open>sign(e_n) == sign(m_tentative)\<close>. The sign of zero
  is zero, and a zero is never of the same sign as anything, itself included (the
  convention of sections 4.1 and 9).
\<close>

definition integral_makes_worse :: "pid_config \<Rightarrow> pid_state \<Rightarrow> real \<Rightarrow> bool" where
  "integral_makes_worse c s e_n =
     (e_n \<noteq> 0 \<and> m_tentative c s e_n \<noteq> 0 \<and> sgn e_n = sgn (m_tentative c s e_n))"

text \<open>Modelled from the spec: step 6, \<^verbatim>\<open>clamp = saturating AND integral_makes_worse\<close>.\<close>

definition clamp :: "pid_config \<Rightarrow> pid_state \<Rightarrow> real \<Rightarrow> bool" where
  "clamp c s e_n = (saturating c s e_n \<and> integral_makes_worse c s e_n)"

text \<open>
  Modelled from the spec: steps 7 to 9, the integral update
  \<^verbatim>\<open>m_I_n = m_I_{n-1} + k_ei * (e_n + e_{n-1}) * (1 - clamp)\<close>, the returned sum
  \<^verbatim>\<open>m_P + m_I_n + m_D_n\<close>, cut to \<^verbatim>\<open>[-output_limit, +output_limit]\<close> when the hard
  saturation is on, and the committed state.
\<close>

definition DiscretePID_update :: "pid_config \<Rightarrow> pid_state \<Rightarrow> real \<Rightarrow> real \<times> pid_state" where
  "DiscretePID_update c s e_n =
     (let m_P = kp c * e_n;
          m_D_n = deriv_next c s e_n;
          m_I_n = integral_term s
                    + k_ei c * (e_n + prev_error s) * (1 - of_bool (clamp c s e_n));
          m_n = m_P + m_I_n + m_D_n;
          out = (if hard_saturate c
                 then max (- output_limit c) (min (output_limit c) m_n) else m_n)
      in (out, \<lparr>integral_term = m_I_n, deriv_term = m_D_n, prev_error = e_n\<rparr>))"

text \<open>
  Modelled from the spec: the contract of one call per sample tick, as a run over a
  sequence of errors that returns the outputs and the state it ends in.
\<close>

fun DiscretePID_run :: "pid_config \<Rightarrow> pid_state \<Rightarrow> real list \<Rightarrow> real list \<times> pid_state" where
  "DiscretePID_run c s [] = ([], s)"
| "DiscretePID_run c s (e # es) =
     (let (m, s') = DiscretePID_update c s e;
          (ms, s'') = DiscretePID_run c s' es
      in (m # ms, s''))"

text \<open>
  Modelled from the spec: a run ``with no saturation'', one during which the clamp
  condition holds at no tick.
\<close>

fun never_clamps :: "pid_config \<Rightarrow> pid_state \<Rightarrow> real list \<Rightarrow> bool" where
  "never_clamps c s [] = True"
| "never_clamps c s (e # es) =
     (\<not> clamp c s e \<and> never_clamps c (snd (DiscretePID_update c s e)) es)"

section \<open>Auxiliary definitions for the proofs\<close>

text \<open>
  The invariant of the filter loop after the indices below \<open>n\<close> have been visited: the
  array keeps its length, the samples not yet visited are still zero, the first sample is
  zero, and every visited sample from index 1 on satisfies the recursion.
\<close>

definition loop_inv :: "real \<Rightarrow> real \<Rightarrow> real list \<Rightarrow> nat \<Rightarrow> real list \<Rightarrow> bool" where
  "loop_inv km ke x n y \<longleftrightarrow>
     length y = length x \<and>
     (\<forall>j. n \<le> j \<and> j < length x \<longrightarrow> y ! j = 0) \<and>
     (0 < length x \<longrightarrow> y ! 0 = 0) \<and>
     (\<forall>j. 0 < j \<and> j < n \<longrightarrow> y ! j = y ! (j - 1) * km + ke * (x ! j + x ! (j - 1)))"

text \<open>The same invariant for the loop in binary64 arithmetic.\<close>

definition float_loop_inv ::
  "double \<Rightarrow> double \<Rightarrow> double list \<Rightarrow> nat \<Rightarrow> double list \<Rightarrow> bool" where
  "float_loop_inv km ke x n y \<longleftrightarrow>
     length y = length x \<and>
     (\<forall>j. n \<le> j \<and> j < length x \<longrightarrow> y ! j = Finite 0) \<and>
     (0 < length x \<longrightarrow> y ! 0 = Finite 0) \<and>
     (\<forall>j. 0 < j \<and> j < n \<longrightarrow> y ! j = float_update km ke (y ! (j - 1)) (x ! j) (x ! (j - 1)))"

text \<open>
  The smallest positive normal binary64 number and the magnitude at which a rounded
  value overflows.
\<close>

definition min_normal :: real where
  "min_normal = 1 / 2 ^ 1022"

definition overflow_threshold :: real where
  "overflow_threshold = 2 ^ 1024"

section \<open>Properties of the pre-filter loop\<close>

lemma loop_inv_init: "loop_inv km ke x 0 (replicate (length x) 0)"
  by (simp add: loop_inv_def)

lemma loop_inv_step:
  assumes inv: "loop_inv km ke x n y" and n: "n < length x"
  shows "loop_inv km ke x (Suc n) (filter_body km ke x n y)"
proof (cases "n = 0")
  case True
  with inv n show ?thesis
    by (simp add: loop_inv_def filter_body_def)
next
  case False
  let ?v = "y ! (n - 1) * km + ke * (x ! n + x ! (n - 1))"
  let ?y' = "y[n := ?v]"
  from inv have len: "length y = length x"
    and zero: "\<And>j. n \<le> j \<Longrightarrow> j < length x \<Longrightarrow> y ! j = 0"
    and first: "0 < length x \<Longrightarrow> y ! 0 = 0"
    and rec: "\<And>j. 0 < j \<Longrightarrow> j < n \<Longrightarrow> y ! j = y ! (j - 1) * km + ke * (x ! j + x ! (j - 1))"
    by (simp_all add: loop_inv_def)
  have body: "filter_body km ke x n y = ?y'"
    using False by (simp add: filter_body_def)
  have 1: "length ?y' = length x" using len by simp
  have 2: "?y' ! j = 0" if "Suc n \<le> j" "j < length x" for j
    using that zero [of j] by simp
  have 3: "?y' ! 0 = 0" if "0 < length x"
    using that first False by simp
  have 4: "?y' ! j = ?y' ! (j - 1) * km + ke * (x ! j + x ! (j - 1))" if "0 < j" "j < Suc n" for j
  proof (cases "j = n")
    case True
    then show ?thesis using n len False by simp
  next
    case neq: False
    with that have "j < n" by simp
    then show ?thesis using rec [of j] that neq by simp
  qed
  show ?thesis unfolding body loop_inv_def using 1 2 3 4 by blast
qed

lemma loop_inv_fold:
  "n \<le> length x \<Longrightarrow>
   loop_inv km ke x n (fold (filter_body km ke x) [0..<n] (replicate (length x) 0))"
proof (induction n)
  case 0
  show ?case by (simp add: loop_inv_init)
next
  case (Suc n)
  then show ?case by (simp add: loop_inv_step)
qed

lemma filter_loop_inv: "loop_inv km ke x (length x) (filter_loop km ke x)"
  unfolding filter_loop_def by (rule loop_inv_fold) simp

lemma filter_loop_length: "length (filter_loop km ke x) = length x"
  using filter_loop_inv [of km ke x] by (simp add: loop_inv_def)

lemma filter_loop_first: "x \<noteq> [] \<Longrightarrow> filter_loop km ke x ! 0 = 0"
  using filter_loop_inv [of km ke x] by (simp add: loop_inv_def)

lemma filter_loop_rec: "0 < i \<Longrightarrow> i < length x \<Longrightarrow>
   filter_loop km ke x ! i = filter_loop km ke x ! (i - 1) * km + ke * (x ! i + x ! (i - 1))"
  using filter_loop_inv [of km ke x] by (simp add: loop_inv_def)

lemma prefilter_coefficients_eq:
  "Ts + 2 * tau_n \<noteq> 0 \<Longrightarrow>
   prefilter_coefficients Ts tau_n =
     Inr ((2 * tau_n - Ts) / (Ts + 2 * tau_n), Ts / (Ts + 2 * tau_n))"
  by (simp add: prefilter_coefficients_def truediv_def)

lemma prefilter_coefficients_InrD:
  "prefilter_coefficients Ts tau_n = Inr (km, ke) \<Longrightarrow>
   Ts + 2 * tau_n \<noteq> 0 \<and> km = (2 * tau_n - Ts) / (Ts + 2 * tau_n) \<and> ke = Ts / (Ts + 2 * tau_n)"
  by (auto simp: prefilter_coefficients_def truediv_def split: if_splits)

text \<open>
  Claim C1. Every application of the recursion by the notebook's loop is one call of the
  specification's \<^verbatim>\<open>CommandPreFilter\<close> update. With the coefficients computed from \<open>T\<close>
  and \<open>tau\<close>, the sample written at index \<open>n = i + 1\<close> is
  \<^verbatim>\<open>k_yLP * y[n-1] + k_xLP * (x[n] + x[n-1])\<close> with \<^verbatim>\<open>k_yLP = (2*tau - T)/(T + 2*tau)\<close>
  and \<^verbatim>\<open>k_xLP = T/(T + 2*tau)\<close>; it is the value the update returns from the stored
  pair \<^verbatim>\<open>(x[n-1], y[n-1])\<close>, and the state the update commits is the pair
  \<^verbatim>\<open>(x[n], y[n])\<close> that the next iteration of the loop reads.
\<close>

theorem prefilter_update_refines:
  assumes co: "prefilter_coefficients T tau = Inr (km, ke)" and i: "Suc i < length x"
  shows "filter_loop km ke x ! Suc i =
           (2 * tau - T) / (T + 2 * tau) * filter_loop km ke x ! i
             + T / (T + 2 * tau) * (x ! Suc i + x ! i) \<and>
         spec_CommandPreFilter_update
           \<lparr>k_yLP = (2 * tau - T) / (T + 2 * tau), k_xLP = T / (T + 2 * tau)\<rparr>
           \<lparr>prev_input = x ! i, prev_output = filter_loop km ke x ! i\<rparr> (x ! Suc i) =
           (filter_loop km ke x ! Suc i,
            \<lparr>prev_input = x ! Suc i, prev_output = filter_loop km ke x ! Suc i\<rparr>)"
proof -
  from co have km: "km = (2 * tau - T) / (T + 2 * tau)" and ke: "ke = T / (T + 2 * tau)"
    by (simp_all add: prefilter_coefficients_InrD)
  from i have "filter_loop km ke x ! Suc i =
      filter_loop km ke x ! i * km + ke * (x ! Suc i + x ! i)"
    using filter_loop_rec [of "Suc i" x km ke] by simp
  then have 1: "filter_loop km ke x ! Suc i =
           (2 * tau - T) / (T + 2 * tau) * filter_loop km ke x ! i
             + T / (T + 2 * tau) * (x ! Suc i + x ! i)"
    by (simp add: km ke mult.commute)
  show ?thesis
    unfolding spec_CommandPreFilter_update_def Let_def
    using 1 by simp
qed

theorem prefilter_update_refines_witness:
  "prefilter_coefficients 2 3 = Inr (1 / 2, 1 / 4) \<and> Suc 0 < length [7, 1, 1 :: real] \<and>
   filter_loop (1 / 2) (1 / 4) [7, 1, 1] ! Suc 0 =
     1 / 2 * filter_loop (1 / 2) (1 / 4) [7, 1, 1] ! 0 + 1 / 4 * (1 + 7)"
proof -
  have co: "prefilter_coefficients 2 3 = Inr (1 / 2, 1 / 4)"
    by (simp add: prefilter_coefficients_def truediv_def)
  have i: "Suc 0 < length [7, 1, 1 :: real]" by simp
  from prefilter_update_refines [OF co i] co i show ?thesis by simp
qed

text \<open>
  Claim C9. The loop does nothing at index 0: the body leaves the array as it is there,
  the first output sample keeps its initial value 0 whatever \<open>x ! 0\<close> is, and the
  recursion holds at every index from 1 on.
\<close>

theorem first_sample_untouched:
  "x \<noteq> [] \<Longrightarrow>
   filter_body km ke x 0 y = y \<and>
   filter_loop km ke x ! 0 = 0 \<and>
   (\<forall>i. 0 < i \<and> i < length x \<longrightarrow>
      filter_loop km ke x ! i =
        filter_loop km ke x ! (i - 1) * km + ke * (x ! i + x ! (i - 1)))"
  by (simp add: filter_body_def filter_loop_first filter_loop_rec)

theorem first_sample_untouched_witness:
  "[7, 1, 1 :: real] \<noteq> [] \<and>
   filter_loop (1 / 2) (1 / 4) [7, 1, 1] ! 0 = 0 \<and>
   filter_loop (1 / 2) (1 / 4) [7, 1, 1] ! 1 = 2"
proof -
  have ne: "[7, 1, 1 :: real] \<noteq> []" by simp
  note t = first_sample_untouched [OF ne, of "1 / 2" "1 / 4" "[]"]
  from t have z: "filter_loop (1 / 2) (1 / 4) [7, 1, 1] ! 0 = 0" by blast
  from t have "filter_loop (1 / 2) (1 / 4) [7, 1, 1] ! 1 =
        filter_loop (1 / 2) (1 / 4) [7, 1, 1] ! (1 - 1) * (1 / 2)
          + 1 / 4 * ([7, 1, 1] ! 1 + [7, 1, 1] ! (1 - 1))"
    by simp
  with z show ?thesis by simp
qed

section \<open>Rounding to binary64\<close>

lemma powi_nat: "0 \<le> e \<Longrightarrow> (2::real) powi e = 2 ^ nat e"
  by (simp add: power_int_def)

lemma powi_neg: "0 \<le> b \<Longrightarrow> (2::real) powi (- b) = 1 / 2 ^ nat b"
  by (simp add: power_int_def field_simps)

lemma exponent_bounds:
  assumes "x \<noteq> 0"
  shows "2 powi exponent x \<le> \<bar>x\<bar> \<and> \<bar>x\<bar> < 2 powi (exponent x + 1)"
proof (cases "1 \<le> \<bar>x\<bar>")
  case True
  define n where "n = \<lfloor>\<bar>x\<bar>\<rfloor>"
  from True have n: "0 < n" by (simp add: n_def)
  have e: "exponent x = bitlen n - 1" using True by (simp add: exponent_def n_def)
  from n have b1: "1 \<le> bitlen n" by (simp add: bitlen_alt_def)
  from bitlen_bounds [OF n] have lo: "2 ^ nat (bitlen n - 1) \<le> n" and hi: "n < 2 ^ nat (bitlen n)"
    by simp_all
  have "(2::real) powi exponent x = of_int (2 ^ nat (bitlen n - 1))"
    using b1 by (simp add: e powi_nat)
  also have "\<dots> \<le> of_int n" using lo by (simp only: of_int_le_iff)
  also have "\<dots> \<le> \<bar>x\<bar>" by (simp add: n_def)
  finally have 1: "2 powi exponent x \<le> \<bar>x\<bar>" .
  have "\<bar>x\<bar> < of_int (n + 1)" by (simp add: n_def)
  also have "\<dots> \<le> of_int (2 ^ nat (bitlen n))"
  proof -
    from hi have "n + 1 \<le> 2 ^ nat (bitlen n)" by simp
    then show ?thesis by (simp only: of_int_le_iff)
  qed
  also have "\<dots> = (2::real) powi (exponent x + 1)"
    using b1 by (simp add: e powi_nat)
  finally have 2: "\<bar>x\<bar> < 2 powi (exponent x + 1)" .
  from 1 2 show ?thesis ..
next
  case False
  with assms have small: "0 < \<bar>x\<bar>" "\<bar>x\<bar> < 1" by simp_all
  define m where "m = \<lceil>1 / \<bar>x\<bar>\<rceil>"
  define b where "b = bitlen (m - 1)"
  from small have inv: "1 < 1 / \<bar>x\<bar>" by simp
  then have m: "2 \<le> m" unfolding m_def by (simp add: le_ceiling_iff)
  then have m1: "0 < m - 1" by simp
  have e: "exponent x = - b" using False by (simp add: exponent_def m_def b_def)
  from m1 have b1: "1 \<le> b" by (simp add: b_def bitlen_alt_def)
  from bitlen_bounds [OF m1] have lo: "2 ^ nat (b - 1) \<le> m - 1" and hi: "m - 1 < 2 ^ nat b"
    by (simp_all add: b_def)
  have "1 / \<bar>x\<bar> \<le> of_int m" by (simp add: m_def)
  also have "\<dots> \<le> of_int (2 ^ nat b)"
  proof -
    from hi have "m \<le> 2 ^ nat b" by simp
    then show ?thesis by (simp only: of_int_le_iff)
  qed
  finally have "1 / \<bar>x\<bar> \<le> 2 ^ nat b" by simp
  then have "1 / 2 ^ nat b \<le> \<bar>x\<bar>" using small by (simp add: field_simps)
  then have 1: "2 powi exponent x \<le> \<bar>x\<bar>" using b1 by (simp add: e powi_neg)
  have "of_int (2 ^ nat (b - 1)) \<le> (of_int (m - 1) :: real)" using lo by (simp only: of_int_le_iff)
  also have "\<dots> < 1 / \<bar>x\<bar>" unfolding m_def by (simp add: less_ceiling_iff [symmetric]) linarith
  finally have "2 ^ nat (b - 1) < 1 / \<bar>x\<bar>" by simp
  then have "\<bar>x\<bar> < 1 / 2 ^ nat (b - 1)" using small by (simp add: field_simps)
  moreover have "(2::real) powi (exponent x + 1) = 1 / 2 ^ nat (b - 1)"
    using b1 powi_neg [of "b - 1"] by (simp add: e)
  ultimately have 2: "\<bar>x\<bar> < 2 powi (exponent x + 1)" by simp
  from 1 2 show ?thesis ..
qed

lemma powi_pos: "0 < (2::real) powi e"
  by simp

lemma powi_mono: "a \<le> b \<Longrightarrow> (2::real) powi a \<le> 2 powi b"
  by (rule power_int_increasing) simp_all

lemma powi_less_cancel: "(2::real) powi a < 2 powi b \<Longrightarrow> a < b"
  using powi_mono [of b a] by (cases "a < b") simp_all

lemma exponent_unique:
  assumes "2 powi e \<le> \<bar>x\<bar>" "\<bar>x\<bar> < 2 powi (e + 1)"
  shows "exponent x = e"
proof -
  have "0 < (2::real) powi e" by simp
  with assms(1) have "0 < \<bar>x\<bar>" by linarith
  then have nz: "x \<noteq> 0" by simp
  note b = exponent_bounds [OF nz]
  from b assms have 1: "(2::real) powi exponent x < 2 powi (e + 1)"
    and 2: "(2::real) powi e < 2 powi (exponent x + 1)"
    by simp_all
  from powi_less_cancel [OF 1] powi_less_cancel [OF 2] show ?thesis by simp
qed

lemma exponent_minus: "exponent (- x) = exponent x"
  by (simp add: exponent_def)

lemma exponent_mono:
  assumes "x \<noteq> 0" "\<bar>x\<bar> \<le> \<bar>y\<bar>"
  shows "exponent x \<le> exponent y"
proof -
  from assms have ny: "y \<noteq> 0" by auto
  from exponent_bounds [OF assms(1)] exponent_bounds [OF ny] assms(2)
  have "(2::real) powi exponent x < 2 powi (exponent y + 1)" by simp
  then have "exponent x < exponent y + 1" by (rule powi_less_cancel)
  then show ?thesis by simp
qed

lemma rhe_cases: "round_half_even r = \<lfloor>r\<rfloor> \<or> round_half_even r = \<lfloor>r\<rfloor> + 1"
  by (simp add: round_half_even_def Let_def)

lemma rhe_of_int: "round_half_even (of_int k) = k"
  by (simp add: round_half_even_def)

lemma rhe_error: "\<bar>of_int (round_half_even r) - r\<bar> \<le> 1 / 2"
proof -
  have "of_int \<lfloor>r\<rfloor> \<le> r" "r < of_int \<lfloor>r\<rfloor> + 1" by linarith+
  then show ?thesis
    by (auto simp: round_half_even_def Let_def)
qed

lemma rhe_mono:
  assumes "r \<le> s"
  shows "round_half_even r \<le> round_half_even s"
proof (cases "\<lfloor>r\<rfloor> = \<lfloor>s\<rfloor>")
  case True
  with assms have "r - of_int \<lfloor>r\<rfloor> \<le> s - of_int \<lfloor>s\<rfloor>" by simp
  with True show ?thesis
    by (auto simp: round_half_even_def Let_def)
next
  case False
  with assms have "\<lfloor>r\<rfloor> < \<lfloor>s\<rfloor>" using floor_mono [OF assms] by simp
  moreover have "round_half_even r \<le> \<lfloor>r\<rfloor> + 1" using rhe_cases [of r] by auto
  moreover have "\<lfloor>s\<rfloor> \<le> round_half_even s" using rhe_cases [of s] by auto
  ultimately show ?thesis by simp
qed

lemma rhe_ge_int: "of_int k \<le> r \<Longrightarrow> k \<le> round_half_even r"
  using rhe_mono [of "of_int k" r] by (simp add: rhe_of_int)

lemma rhe_le_int: "r \<le> of_int k \<Longrightarrow> round_half_even r \<le> k"
  using rhe_mono [of r "of_int k"] by (simp add: rhe_of_int)

lemma rhe_minus: "round_half_even (- r) = - round_half_even r"
proof (cases "r = of_int \<lfloor>r\<rfloor>")
  case True
  then obtain k where "r = of_int k" ..
  then have "- r = of_int (- k)" by simp
  then show ?thesis unfolding \<open>r = of_int k\<close> by (simp only: rhe_of_int)
next
  case False
  then have fl: "\<lfloor>- r\<rfloor> = - \<lfloor>r\<rfloor> - 1"
    by (metis ceiling_altdef ceiling_def add_diff_cancel_right' minus_diff_eq uminus_add_conv_diff)
  show ?thesis
    by (auto simp: round_half_even_def Let_def fl)
qed

lemma powi_add: "(2::real) powi (a + b) = 2 powi a * 2 powi b"
  by (simp add: power_int_add)

lemma powi_of_int: "0 \<le> e \<Longrightarrow> (2::real) powi e = of_int (2 ^ nat e)"
  by (simp add: powi_nat)

lemma quantum_minus: "quantum (- x) = quantum x"
  by (simp add: quantum_def exponent_minus)

lemma round_zero: "round_binary64 0 = 0"
  by (simp add: round_binary64_def)

lemma round_minus: "round_binary64 (- x) = - round_binary64 x"
  by (simp add: round_binary64_def quantum_minus rhe_minus)

lemma round_nonneg: "0 \<le> x \<Longrightarrow> 0 \<le> round_binary64 x"
proof -
  assume "0 \<le> x"
  then have "of_int 0 \<le> x / 2 powi quantum x" by simp
  then have "0 \<le> round_half_even (x / 2 powi quantum x)" by (rule rhe_ge_int)
  then show ?thesis by (simp add: round_binary64_def)
qed

lemma round_error_quantum:
  "\<bar>round_binary64 x - x\<bar> \<le> 2 powi quantum x / 2"
proof (cases "x = 0")
  case True
  then show ?thesis by (simp add: round_zero)
next
  case False
  let ?q = "(2::real) powi quantum x"
  have q: "0 < ?q" by simp
  have "round_binary64 x - x = (of_int (round_half_even (x / ?q)) - x / ?q) * ?q"
    using False q by (simp add: round_binary64_def field_simps)
  then have "\<bar>round_binary64 x - x\<bar> = \<bar>of_int (round_half_even (x / ?q)) - x / ?q\<bar> * ?q"
    using q by (simp add: abs_mult)
  also have "\<dots> \<le> 1 / 2 * ?q"
    using rhe_error [of "x / ?q"] q by (intro mult_right_mono) simp_all
  finally show ?thesis by simp
qed

lemma quantum_bound:
  assumes "\<bar>x\<bar> \<le> B" "1 / 2 ^ 1022 \<le> B" and nz: "x \<noteq> 0"
  shows "2 powi quantum x \<le> B / 2 ^ 52"
proof -
  have "(2::real) powi max (exponent x) (- 1022) \<le> B"
  proof (cases "exponent x \<le> - 1022")
    case True
    then have "max (exponent x) (- 1022) = - 1022" by simp
    moreover have "(2::real) powi (- 1022) = 1 / 2 ^ 1022"
      using powi_neg [of 1022] by simp
    ultimately show ?thesis using assms(2) by simp
  next
    case False
    then have m: "max (exponent x) (- 1022) = exponent x" by simp
    from exponent_bounds [OF nz] assms(1) show ?thesis by (simp add: m)
  qed
  moreover have "(2::real) powi quantum x = 2 powi max (exponent x) (- 1022) / 2 ^ 52"
    unfolding quantum_def using powi_add [of "max (exponent x) (- 1022)" "- 52"] powi_neg [of 52]
    by simp
  ultimately show ?thesis by (simp add: divide_right_mono)
qed

lemma round_error:
  assumes "\<bar>x\<bar> \<le> B" "1 / 2 ^ 1022 \<le> B"
  shows "\<bar>round_binary64 x - x\<bar> \<le> B / 2 ^ 53"
proof (cases "x = 0")
  case True
  with assms show ?thesis by (simp add: round_zero)
next
  case False
  have "\<bar>round_binary64 x - x\<bar> \<le> 2 powi quantum x / 2" by (rule round_error_quantum)
  also have "\<dots> \<le> (B / 2 ^ 52) / 2"
    using quantum_bound [OF assms False] by simp
  finally show ?thesis by simp
qed

lemma round_mono_pos:
  assumes x: "0 < x" and xy: "x \<le> y"
  shows "round_binary64 x \<le> round_binary64 y"
proof -
  from x xy have y: "0 < y" by simp
  from x y have nz: "x \<noteq> 0" "y \<noteq> 0" by simp_all
  have ee: "exponent x \<le> exponent y"
    using exponent_mono [OF nz(1)] x xy by simp
  then have qq: "quantum x \<le> quantum y" by (simp add: quantum_def)
  have rx: "round_binary64 x = of_int (round_half_even (x / 2 powi quantum x)) * 2 powi quantum x"
    and ry: "round_binary64 y = of_int (round_half_even (y / 2 powi quantum y)) * 2 powi quantum y"
    using nz by (simp_all add: round_binary64_def)
  show ?thesis
  proof (cases "quantum x = quantum y")
    case True
    have "x / 2 powi quantum y \<le> y / 2 powi quantum y"
      using xy by (simp add: divide_right_mono)
    then have "round_half_even (x / 2 powi quantum y) \<le> round_half_even (y / 2 powi quantum y)"
      by (rule rhe_mono)
    then have "(of_int (round_half_even (x / 2 powi quantum y)) :: real)
        \<le> of_int (round_half_even (y / 2 powi quantum y))"
      by (simp only: of_int_le_iff)
    then show ?thesis unfolding rx ry True
      by (intro mult_right_mono) simp_all
  next
    case False
    with qq have lt: "quantum x < quantum y" by simp
    then have big: "- 1022 < exponent y" and el: "exponent x < exponent y"
      by (auto simp: quantum_def max_def split: if_splits)
    then have qy: "quantum y = exponent y - 52" by (simp add: quantum_def)
    let ?p = "(2::real) powi exponent y"
    from exponent_bounds [OF nz(1)] x have "x < 2 powi (exponent x + 1)" by simp
    also have "\<dots> \<le> ?p" using el by (intro powi_mono) simp
    finally have xp: "x \<le> ?p" by simp
    from exponent_bounds [OF nz(2)] y have py: "?p \<le> y" by simp
    have "?p = 2 powi 52 * 2 powi quantum y"
      using powi_add [of 52 "quantum y"] by (simp add: qy)
    then have p1: "?p / 2 powi quantum y = of_int (2 ^ 52)"
      using powi_of_int [of 52] by simp
    have "of_int (2 ^ 52) \<le> y / 2 powi quantum y"
      using py unfolding p1 [symmetric] by (simp add: divide_right_mono)
    then have "2 ^ 52 \<le> round_half_even (y / 2 powi quantum y)" by (rule rhe_ge_int)
    then have "(of_int (2 ^ 52) :: real) \<le> of_int (round_half_even (y / 2 powi quantum y))"
      by (simp only: of_int_le_iff)
    then have "of_int (2 ^ 52) * 2 powi quantum y \<le> round_binary64 y"
      unfolding ry by (intro mult_right_mono) simp_all
    with p1 have up: "?p \<le> round_binary64 y" by (simp add: field_simps)
    have d: "0 \<le> exponent y - quantum x" using lt by (simp add: qy)
    have "?p = 2 powi (exponent y - quantum x) * 2 powi quantum x"
      using powi_add [of "exponent y - quantum x" "quantum x"] by simp
    then have p2: "?p / 2 powi quantum x = of_int (2 ^ nat (exponent y - quantum x))"
      using powi_of_int [OF d] by simp
    have "x / 2 powi quantum x \<le> of_int (2 ^ nat (exponent y - quantum x))"
      using xp unfolding p2 [symmetric] by (simp add: divide_right_mono)
    then have "round_half_even (x / 2 powi quantum x) \<le> 2 ^ nat (exponent y - quantum x)"
      by (rule rhe_le_int)
    then have "(of_int (round_half_even (x / 2 powi quantum x)) :: real)
        \<le> of_int (2 ^ nat (exponent y - quantum x))"
      by (simp only: of_int_le_iff)
    then have "round_binary64 x \<le> of_int (2 ^ nat (exponent y - quantum x)) * 2 powi quantum x"
      unfolding rx by (intro mult_right_mono) simp_all
    with p2 have "round_binary64 x \<le> ?p" by (simp add: field_simps)
    with up show ?thesis by simp
  qed
qed

lemma round_mono:
  assumes "x \<le> y"
  shows "round_binary64 x \<le> round_binary64 y"
proof -
  consider "0 < x" | "x \<le> 0" "0 \<le> y" | "y < 0" by linarith
  then show ?thesis
  proof cases
    case 1
    then show ?thesis using assms by (rule round_mono_pos)
  next
    case 2
    then have "round_binary64 x \<le> 0"
      using round_nonneg [of "- x"] by (simp add: round_minus)
    moreover have "0 \<le> round_binary64 y" using 2 by (simp add: round_nonneg)
    ultimately show ?thesis by simp
  next
    case 3
    with assms have "0 < - y" "- y \<le> - x" by simp_all
    then have "round_binary64 (- y) \<le> round_binary64 (- x)" by (rule round_mono_pos)
    then show ?thesis by (simp add: round_minus)
  qed
qed

lemma min_normal_le_one: "min_normal \<le> 1"
  unfolding min_normal_def by (simp add: divide_le_eq_1 one_le_power del: power_numeral)

lemma two_le_threshold: "2 ^ 1023 * 2 = overflow_threshold"
  unfolding overflow_threshold_def by simp

lemma exponent_less_iff: "exponent v < 1024 \<longleftrightarrow> \<bar>v\<bar> < overflow_threshold"
proof (cases "v = 0")
  case True
  then show ?thesis by (simp add: exponent_def bitlen_alt_def overflow_threshold_def del: power_numeral)
next
  case False
  have t: "overflow_threshold = 2 powi 1024"
    unfolding overflow_threshold_def using powi_nat [of 1024] by (simp del: power_numeral)
  note b = exponent_bounds [OF False]
  show ?thesis
  proof
    assume "exponent v < 1024"
    then have "(2::real) powi (exponent v + 1) \<le> 2 powi 1024" by (intro powi_mono) simp
    with b show "\<bar>v\<bar> < overflow_threshold" unfolding t by linarith
  next
    assume "\<bar>v\<bar> < overflow_threshold"
    with b have "(2::real) powi exponent v < 2 powi 1024" unfolding t by linarith
    then show "exponent v < 1024" by (rule powi_less_cancel)
  qed
qed

lemma binary64_finite:
  "\<bar>round_binary64 r\<bar> < overflow_threshold \<Longrightarrow> binary64 r = Finite (round_binary64 r)"
  by (simp add: binary64_def Let_def exponent_less_iff)

lemma round_error_min:
  assumes "\<bar>x\<bar> \<le> B" "min_normal \<le> B"
  shows "\<bar>round_binary64 x - x\<bar> \<le> B / 9007199254740992"
  using round_error [of x B] assms by (simp add: min_normal_def del: power_numeral) simp

lemma threshold_large: "16 \<le> overflow_threshold"
  unfolding overflow_threshold_def by simp

lemma abs_quotient_le:
  fixes n d c :: real
  assumes "0 < d" "\<bar>n\<bar> \<le> c * d"
  shows "\<bar>n / d\<bar> \<le> c"
proof -
  have "\<bar>n / d\<bar> = \<bar>n\<bar> / d" using assms(1) by simp
  also have "\<dots> \<le> c" using assms by (simp add: divide_le_eq)
  finally show ?thesis .
qed

lemma binary64_Finite_iff:
  "binary64 r = Finite v \<longleftrightarrow> v = round_binary64 r \<and> \<bar>round_binary64 r\<bar> < overflow_threshold"
  by (auto simp: binary64_def Let_def exponent_less_iff)

lemma binary64_sandwich:
  assumes "binary64 u = Finite ru" "binary64 w = Finite rw" "u \<le> v" "v \<le> w"
  shows "\<exists>rv. binary64 v = Finite rv \<and> ru \<le> rv \<and> rv \<le> rw"
proof -
  from assms(1,2) have ru: "ru = round_binary64 u" "\<bar>ru\<bar> < overflow_threshold"
    and rw: "rw = round_binary64 w" "\<bar>rw\<bar> < overflow_threshold"
    by (simp_all add: binary64_Finite_iff)
  have 1: "ru \<le> round_binary64 v" unfolding ru(1) using assms(3) by (rule round_mono)
  have 2: "round_binary64 v \<le> rw" unfolding rw(1) using assms(4) by (rule round_mono)
  from 1 2 ru(2) rw(2) have "\<bar>round_binary64 v\<bar> < overflow_threshold" by linarith
  then have "binary64 v = Finite (round_binary64 v)" by (rule binary64_finite)
  with 1 2 show ?thesis by blast
qed

lemma float_add_FiniteD:
  "float_add a b = Finite c \<Longrightarrow> \<exists>a' b'. a = Finite a' \<and> b = Finite b' \<and> binary64 (a' + b') = Finite c"
  by (cases a; cases b) simp_all

lemma float_mul_FiniteD:
  "float_mul a b = Finite c \<Longrightarrow> \<exists>a' b'. a = Finite a' \<and> b = Finite b' \<and> binary64 (a' * b') = Finite c"
  by (cases a; cases b) (simp_all add: signed_inf_def split: if_splits)

lemma round_one: "round_binary64 1 = 1"
  by code_simp

lemma binary64_zero: "binary64 0 = Finite 0"
  by code_simp

lemma binary64_minus_one: "binary64 (- 1) = Finite (- 1)"
  by code_simp

lemma binary64_one: "binary64 1 = Finite 1"
  by code_simp

section \<open>Properties of the pre-filter in binary64 arithmetic\<close>

lemma float_update_sandwich:
  assumes k: "0 \<le> km" "0 \<le> ke"
    and top: "float_update (Finite km) (Finite ke) (Finite hi) (Finite hi) (Finite hi) = Finite h"
    and bot: "float_update (Finite km) (Finite ke) (Finite lo) (Finite lo) (Finite lo) = Finite l"
    and y: "lo \<le> y" "y \<le> hi" and a: "lo \<le> a" "a \<le> hi" and b: "lo \<le> b" "b \<le> hi"
  shows "\<exists>r. float_update (Finite km) (Finite ke) (Finite y) (Finite a) (Finite b) = Finite r \<and>
             l \<le> r \<and> r \<le> h"
proof -
  from top obtain ph rh where ph: "binary64 (hi * km) = Finite ph"
    and rh0: "float_mul (Finite ke) (binary64 (hi + hi)) = Finite rh"
    and h: "binary64 (ph + rh) = Finite h"
    unfolding float_update_def by (auto dest!: float_add_FiniteD)
  from rh0 obtain sh where sh: "binary64 (hi + hi) = Finite sh" and rh: "binary64 (ke * sh) = Finite rh"
    by (auto dest!: float_mul_FiniteD)
  from bot obtain pl rl where pl: "binary64 (lo * km) = Finite pl"
    and rl0: "float_mul (Finite ke) (binary64 (lo + lo)) = Finite rl"
    and l: "binary64 (pl + rl) = Finite l"
    unfolding float_update_def by (auto dest!: float_add_FiniteD)
  from rl0 obtain sl where sl: "binary64 (lo + lo) = Finite sl" and rl: "binary64 (ke * sl) = Finite rl"
    by (auto dest!: float_mul_FiniteD)
  have "lo * km \<le> y * km" "y * km \<le> hi * km"
    using y k by (simp_all add: mult_right_mono)
  from binary64_sandwich [OF pl ph this]
  obtain p where p: "binary64 (y * km) = Finite p" "pl \<le> p" "p \<le> ph" by blast
  have "lo + lo \<le> a + b" "a + b \<le> hi + hi" using a b by simp_all
  from binary64_sandwich [OF sl sh this]
  obtain s where s: "binary64 (a + b) = Finite s" "sl \<le> s" "s \<le> sh" by blast
  have "ke * sl \<le> ke * s" "ke * s \<le> ke * sh"
    using s k by (simp_all add: mult_left_mono)
  from binary64_sandwich [OF rl rh this]
  obtain r where r: "binary64 (ke * s) = Finite r" "rl \<le> r" "r \<le> rh" by blast
  have "pl + rl \<le> p + r" "p + r \<le> ph + rh" using p r by simp_all
  from binary64_sandwich [OF l h this]
  obtain v where v: "binary64 (p + r) = Finite v" "l \<le> v" "v \<le> h" by blast
  have "float_update (Finite km) (Finite ke) (Finite y) (Finite a) (Finite b) = Finite v"
    by (simp add: float_update_def p s r v)
  with v show ?thesis by blast
qed

lemma float_loop_inv_init: "float_loop_inv km ke x 0 (replicate (length x) (Finite 0))"
  by (simp add: float_loop_inv_def)

lemma float_loop_inv_step:
  assumes inv: "float_loop_inv km ke x n y" and n: "n < length x"
  shows "float_loop_inv km ke x (Suc n) (float_filter_body km ke x n y)"
proof (cases "n = 0")
  case True
  with inv n show ?thesis
    by (simp add: float_loop_inv_def float_filter_body_def)
next
  case False
  let ?v = "float_update km ke (y ! (n - 1)) (x ! n) (x ! (n - 1))"
  let ?y' = "y[n := ?v]"
  from inv have len: "length y = length x"
    and zero: "\<And>j. n \<le> j \<Longrightarrow> j < length x \<Longrightarrow> y ! j = Finite 0"
    and first: "0 < length x \<Longrightarrow> y ! 0 = Finite 0"
    and rec: "\<And>j. 0 < j \<Longrightarrow> j < n \<Longrightarrow>
                y ! j = float_update km ke (y ! (j - 1)) (x ! j) (x ! (j - 1))"
    by (simp_all add: float_loop_inv_def)
  have body: "float_filter_body km ke x n y = ?y'"
    using False by (simp add: float_filter_body_def)
  have 1: "length ?y' = length x" using len by simp
  have 2: "?y' ! j = Finite 0" if "Suc n \<le> j" "j < length x" for j
    using that zero [of j] by simp
  have 3: "?y' ! 0 = Finite 0" if "0 < length x"
    using that first False by simp
  have 4: "?y' ! j = float_update km ke (?y' ! (j - 1)) (x ! j) (x ! (j - 1))"
    if "0 < j" "j < Suc n" for j
  proof (cases "j = n")
    case True
    then show ?thesis using n len False by simp
  next
    case neq: False
    with that have "j < n" by simp
    then show ?thesis using rec [of j] that neq by simp
  qed
  show ?thesis unfolding body float_loop_inv_def using 1 2 3 4 by blast
qed

lemma float_loop_inv_fold:
  "n \<le> length x \<Longrightarrow>
   float_loop_inv km ke x n
     (fold (float_filter_body km ke x) [0..<n] (replicate (length x) (Finite 0)))"
proof (induction n)
  case 0
  show ?case by (simp add: float_loop_inv_init)
next
  case (Suc n)
  then show ?case by (simp add: float_loop_inv_step)
qed

lemma float_filter_loop_inv: "float_loop_inv km ke x (length x) (float_filter_loop km ke x)"
  unfolding float_filter_loop_def by (rule float_loop_inv_fold) simp

lemma float_filter_loop_length: "length (float_filter_loop km ke x) = length x"
  using float_filter_loop_inv [of km ke x] by (simp add: float_loop_inv_def)

lemma float_filter_loop_first: "x \<noteq> [] \<Longrightarrow> float_filter_loop km ke x ! 0 = Finite 0"
  using float_filter_loop_inv [of km ke x] by (simp add: float_loop_inv_def)

lemma float_filter_loop_rec: "0 < i \<Longrightarrow> i < length x \<Longrightarrow>
   float_filter_loop km ke x ! i =
     float_update km ke (float_filter_loop km ke x ! (i - 1)) (x ! i) (x ! (i - 1))"
  using float_filter_loop_inv [of km ke x] by (simp add: float_loop_inv_def)

lemma float_loop_bounded:
  assumes k: "0 \<le> km" "0 \<le> ke"
    and top: "float_update (Finite km) (Finite ke) (Finite hi) (Finite hi) (Finite hi) = Finite h"
      "h \<le> hi"
    and bot: "float_update (Finite km) (Finite ke) (Finite lo) (Finite lo) (Finite lo) = Finite l"
      "lo \<le> l"
    and x: "\<forall>v\<in>set x. \<exists>r. v = Finite r \<and> lo \<le> r \<and> r \<le> hi"
    and seed: "lo \<le> 0" "0 \<le> hi"
  shows "i < length x \<Longrightarrow>
         \<exists>r. float_filter_loop (Finite km) (Finite ke) x ! i = Finite r \<and> lo \<le> r \<and> r \<le> hi"
proof (induction i)
  case 0
  then have "x \<noteq> []" by auto
  then show ?case using seed by (simp add: float_filter_loop_first)
next
  case (Suc i)
  then obtain y where y: "float_filter_loop (Finite km) (Finite ke) x ! i = Finite y"
    "lo \<le> y" "y \<le> hi" by auto
  from Suc.prems have "x ! Suc i \<in> set x" by simp
  with x obtain a where a: "x ! Suc i = Finite a" "lo \<le> a" "a \<le> hi" by blast
  from Suc.prems have "x ! i \<in> set x" by simp
  with x obtain b where b: "x ! i = Finite b" "lo \<le> b" "b \<le> hi" by blast
  from float_update_sandwich [OF k top(1) bot(1) y(2,3) a(2,3) b(2,3)]
  obtain r where r: "float_update (Finite km) (Finite ke) (Finite y) (Finite a) (Finite b) = Finite r"
    "l \<le> r" "r \<le> h" by blast
  have "float_filter_loop (Finite km) (Finite ke) x ! Suc i =
      float_update (Finite km) (Finite ke) (Finite y) (Finite a) (Finite b)"
    using float_filter_loop_rec [of "Suc i" x "Finite km" "Finite ke"] Suc.prems
    by (simp add: y a b)
  with r top(2) bot(2) show ?case by auto
qed

lemma coefficients_nonneg:
  assumes bin: "round_binary64 T = T" and T: "0 < T" "T < 2 * tau"
    and co: "float_prefilter_coefficients (Finite T) (Finite tau) = Inr (Finite km, Finite ke)"
  shows "0 \<le> km \<and> 0 \<le> ke"
proof -
  define A where "A = binary64 (2 * tau)"
  have aT: "T \<le> round_binary64 (2 * tau)"
    using round_mono [of T "2 * tau"] T bin by simp
  show ?thesis
  proof (cases A)
    case (Finite a)
    then have a: "a = round_binary64 (2 * tau)" by (simp add: A_def binary64_Finite_iff)
    with aT have Ta: "T \<le> a" by simp
    define D where "D = binary64 (T + a)"
    show ?thesis
    proof (cases D)
      case (Finite d)
      then have d: "d = round_binary64 (T + a)" by (simp add: D_def binary64_Finite_iff)
      have "round_binary64 T \<le> round_binary64 (T + a)"
        using Ta T by (intro round_mono) simp
      with bin d T have dpos: "0 < d" by simp
      define N where "N = binary64 (a + - T)"
      have n0: "0 \<le> round_binary64 (a + - T)" using Ta by (intro round_nonneg) simp
      from co have "\<exists>n. N = Finite n"
        unfolding float_prefilter_coefficients_def float_sub_def N_def
        using dpos \<open>A = Finite a\<close> \<open>D = Finite d\<close>
        by (cases "binary64 (a + - T)") (auto simp: A_def D_def signed_inf_def split: if_splits)
      then obtain n where n: "N = Finite n" ..
      then have "n = round_binary64 (a + - T)" by (simp add: N_def binary64_Finite_iff)
      with n0 have npos: "0 \<le> n" by simp
      from co have "binary64 (n / d) = Finite km" "binary64 (T / d) = Finite ke"
        unfolding float_prefilter_coefficients_def float_sub_def
        using dpos \<open>A = Finite a\<close> \<open>D = Finite d\<close> n
        by (auto simp: A_def D_def N_def split: if_splits sum.splits)
      then have "km = round_binary64 (n / d)" "ke = round_binary64 (T / d)"
        by (simp_all add: binary64_Finite_iff)
      then show ?thesis using npos dpos T by (simp add: round_nonneg)
    next
      case PlusInf
      with co \<open>A = Finite a\<close> show ?thesis
        unfolding float_prefilter_coefficients_def float_sub_def
        by (cases "binary64 (a + - T)") (auto simp: A_def D_def split: if_splits sum.splits)
    next
      case MinusInf
      with co \<open>A = Finite a\<close> show ?thesis
        unfolding float_prefilter_coefficients_def float_sub_def
        by (cases "binary64 (a + - T)") (auto simp: A_def D_def split: if_splits sum.splits)
    next
      case NaN
      with co \<open>A = Finite a\<close> show ?thesis
        unfolding float_prefilter_coefficients_def float_sub_def
        by (cases "binary64 (a + - T)") (auto simp: A_def D_def split: if_splits sum.splits)
    qed
  next
    case PlusInf
    with co show ?thesis
      by (simp add: float_prefilter_coefficients_def float_sub_def A_def)
  next
    case MinusInf
    with co show ?thesis
      by (simp add: float_prefilter_coefficients_def float_sub_def A_def)
  next
    case NaN
    with co show ?thesis
      by (simp add: float_prefilter_coefficients_def float_sub_def A_def)
  qed
qed

lemma zero_tau_coefficients:
  assumes "round_binary64 t = t" "\<bar>t\<bar> < overflow_threshold" "t \<noteq> 0"
  shows "float_prefilter_coefficients (Finite t) (Finite 0) = Inr (Finite (- 1), Finite 1)"
proof -
  have t: "binary64 t = Finite t" using assms by (simp add: binary64_Finite_iff)
  have mt: "binary64 (- t) = Finite (- t)" using assms by (simp add: binary64_Finite_iff round_minus)
  show ?thesis
    using assms(3)
    by (simp add: float_prefilter_coefficients_def float_sub_def binary64_zero t mt
        binary64_minus_one binary64_one)
qed

lemma zero_denominator:
  "float_add Ts (float_mul (Finite 2) tau_n) = Finite 0 \<Longrightarrow>
   float_prefilter_coefficients Ts tau_n = Inl ZeroDivisionError"
  unfolding float_prefilter_coefficients_def by simp

lemma zero_tau_setup:
  assumes t: "binary64 t = Finite t" "0 < t"
    and q: "binary64 (1 / t) = Finite q" and cap: "\<lfloor>q\<rfloor> \<le> capacity"
  shows "float_filter_setup capacity (Finite t) (Finite 0) =
           Inr \<lparr>total_samples = \<lfloor>q\<rfloor>, samples_off = \<lfloor>q\<rfloor>,
                kmlp = Finite (- 1), kelp = Finite 1\<rparr>"
proof -
  from t(1) have c: "t = round_binary64 t \<and> \<bar>round_binary64 t\<bar> < overflow_threshold"
    by (rule iffD1 [OF binary64_Finite_iff])
  then have "t = round_binary64 t" by (rule conjunct1)
  then have rt1: "round_binary64 t = t" by (rule sym)
  from c have "\<bar>round_binary64 t\<bar> < overflow_threshold" by (rule conjunct2)
  then have rt2: "\<bar>t\<bar> < overflow_threshold" by (simp only: rt1)
  note rt = rt1 rt2
  from t(2) have nz: "t \<noteq> 0" by simp
  from q have "q = round_binary64 (1 / t)" by (simp add: binary64_Finite_iff)
  with t(2) have q0: "0 \<le> q" by (simp add: round_nonneg)
  then have fl: "0 \<le> \<lfloor>q\<rfloor>" by simp
  have co: "float_prefilter_coefficients (Finite t) (Finite 0) = Inr (Finite (- 1), Finite 1)"
    using rt nz by (rule zero_tau_coefficients)
  show ?thesis
    unfolding float_filter_setup_def Let_def
    using nz q0 fl cap by (simp add: binary64_zero binary64_one q co)
qed

text \<open>
  In exact arithmetic the two coefficients satisfy \<open>kmlp + 2 * kelp = 1\<close> for a positive
  sample period and a positive time constant, the unity gain at zero frequency of the
  derivation.
\<close>

lemma exact_coefficient_sum:
  "0 < T \<Longrightarrow> 0 < tau \<Longrightarrow>
   prefilter_coefficients T tau = Inr ((2 * tau - T) / (T + 2 * tau), T / (T + 2 * tau)) \<and>
   (2 * tau - T) / (T + 2 * tau) + 2 * (T / (T + 2 * tau)) = 1"
proof -
  assume "0 < T" "0 < tau"
  then have nz: "T + 2 * tau \<noteq> 0" by simp
  have "(2 * tau - T) / (T + 2 * tau) + 2 * (T / (T + 2 * tau)) = (T + 2 * tau) / (T + 2 * tau)"
    by (simp add: add_divide_distrib [symmetric])
  with nz show ?thesis by (simp add: prefilter_coefficients_eq)
qed

text \<open>
  Claim C2 says that for strictly positive \<open>T\<close> and \<open>tau\<close> the coefficients satisfy
  \<open>k_yLP + 2 * k_xLP = 1\<close> exactly. The coefficients the code computes are rounded: for
  \<open>T = 3\<close> and \<open>tau = 0.25\<close> the sum \<^verbatim>\<open>kmlp + 2*kelp\<close> is \<open>1 - 2^(-53)\<close>, the float
  \<^verbatim>\<open>0.9999999999999999\<close>.
\<close>

theorem coefficient_sum_not_one:
  "(0::real) < 3 \<and> (0::real) < 1 / 4 \<and>
   float_prefilter_coefficients (Finite 3) (Finite (1 / 4)) =
     Inr (Finite (- (6433713753386423 / 9007199254740992)),
          Finite (7720456504063707 / 9007199254740992)) \<and>
   float_add (Finite (- (6433713753386423 / 9007199254740992)))
     (float_mul (Finite 2) (Finite (7720456504063707 / 9007199254740992))) =
     Finite (9007199254740991 / 9007199254740992) \<and>
   (9007199254740991 / 9007199254740992 :: real) \<noteq> 1"
  by code_simp

text \<open>
  Claim C2, amended. For strictly positive \<open>T\<close> and \<open>tau\<close> with \<open>T + 2 * tau\<close> in the
  normal range of binary64, from \<open>2^(-1022)\<close> to \<open>2^1023\<close>, the two coefficient lines
  raise no error and return finite coefficients, and the sum \<^verbatim>\<open>kmlp + 2*kelp\<close> computed
  from them is finite and differs from 1 by at most \<open>2^(-48)\<close>: the identity, exact in
  real arithmetic, holds for the computed coefficients up to rounding.
\<close>

theorem coefficient_sum_rounded:
  assumes T: "0 < T" and tau: "0 < tau"
    and lo: "min_normal \<le> T + 2 * tau" and hi: "T + 2 * tau \<le> overflow_threshold / 2"
  shows "\<exists>km ke s.
           float_prefilter_coefficients (Finite T) (Finite tau) = Inr (Finite km, Finite ke) \<and>
           float_add (Finite km) (float_mul (Finite 2) (Finite ke)) = Finite s \<and>
           \<bar>s - 1\<bar> \<le> 1 / 2 ^ 48"
proof -
  define P where "P = T + 2 * tau"
  define a where "a = round_binary64 (2 * tau)"
  define d where "d = round_binary64 (T + a)"
  define n where "n = round_binary64 (a + - T)"
  define km where "km = round_binary64 (n / d)"
  define ke where "ke = round_binary64 (T / d)"
  define b where "b = round_binary64 (2 * ke)"
  define s where "s = round_binary64 (km + b)"
  from T tau have P: "0 < P" "2 * tau < P" "T < P" by (simp_all add: P_def)
  from lo hi have Pr: "min_normal \<le> P" "P \<le> overflow_threshold / 2" by (simp_all add: P_def)
  have P2: "min_normal \<le> 2 * P" using Pr(1) P(1) by simp
  note one = min_normal_le_one
  have Pd: "P = T + 2 * tau" by (simp add: P_def)
  have a_err: "\<bar>a - 2 * tau\<bar> \<le> P / 9007199254740992"
    unfolding a_def using P tau Pr by (intro round_error_min) simp_all
  have a_fin: "\<bar>a\<bar> < overflow_threshold" using a_err P Pr tau by linarith
  have d_err0: "\<bar>d - (T + a)\<bar> \<le> 2 * P / 9007199254740992"
    unfolding d_def using a_err P Pd T tau P2 by (intro round_error_min) linarith+
  have d_err: "\<bar>d - P\<bar> \<le> 3 * P / 9007199254740992"
    using d_err0 a_err Pd by linarith
  have d_fin: "\<bar>d\<bar> < overflow_threshold" using d_err P Pr by linarith
  have d_pos: "0 < d" using d_err P by linarith
  have n_err0: "\<bar>n - (a + - T)\<bar> \<le> 2 * P / 9007199254740992"
    unfolding n_def using a_err P Pd T tau P2 by (intro round_error_min) linarith+
  have n_err: "\<bar>n - (2 * tau - T)\<bar> \<le> 3 * P / 9007199254740992"
    using n_err0 a_err by linarith
  have n_abs: "\<bar>n\<bar> \<le> P + 3 * P / 9007199254740992"
    using n_err P Pd T tau by linarith
  have n_fin: "\<bar>n\<bar> < overflow_threshold" using n_abs P Pr by linarith
  have nd: "\<bar>n / d\<bar> \<le> 2"
    using d_pos by (rule abs_quotient_le) (use n_abs d_err P in linarith)
  have km_err: "\<bar>km - n / d\<bar> \<le> 2 / 9007199254740992"
    unfolding km_def using nd one by (intro round_error_min) linarith+
  have km_abs: "\<bar>km\<bar> \<le> 3" using km_err nd by linarith
  have Td: "\<bar>T / d\<bar> \<le> 2"
    using d_pos by (rule abs_quotient_le) (use d_err P T in linarith)
  have ke_err: "\<bar>ke - T / d\<bar> \<le> 2 / 9007199254740992"
    unfolding ke_def using Td one by (intro round_error_min) linarith+
  have ke_abs: "\<bar>ke\<bar> \<le> 3" using ke_err Td by linarith
  have b_err: "\<bar>b - 2 * ke\<bar> \<le> 6 / 9007199254740992"
    unfolding b_def using ke_abs one by (intro round_error_min) linarith+
  have b_abs: "\<bar>b\<bar> \<le> 7" using b_err ke_abs by linarith
  have s_err: "\<bar>s - (km + b)\<bar> \<le> 10 / 9007199254740992"
    unfolding s_def using km_abs b_abs one by (intro round_error_min) linarith+
  have res: "\<bar>(n + 2 * T - d) / d\<bar> \<le> 7 / 9007199254740992"
    using d_pos by (rule abs_quotient_le) (use n_err d_err P Pd in linarith)
  have split: "n / d + 2 * (T / d) - 1 = (n + 2 * T - d) / d"
    using d_pos by (simp add: field_simps)
  have s29: "\<bar>s - 1\<bar> \<le> 29 / 9007199254740992"
    using s_err km_err b_err ke_err res unfolding split [symmetric] by linarith
  then have bound: "\<bar>s - 1\<bar> \<le> 1 / 2 ^ 48" by simp
  have thr: "16 \<le> overflow_threshold" by (rule threshold_large)
  have m2: "float_mul (Finite 2) (Finite tau) = Finite a"
    using a_fin by (simp add: a_def binary64_finite)
  have den: "float_add (Finite T) (Finite a) = Finite d"
    using d_fin by (simp add: d_def binary64_finite)
  have num: "float_sub (Finite a) (Finite T) = Finite n"
    using n_fin by (simp add: n_def float_sub_def binary64_finite)
  have q1: "float_truediv (Finite n) (Finite d) = Inr (Finite km)"
    using d_pos km_abs thr by (simp add: km_def binary64_finite)
  have q2: "float_truediv (Finite T) (Finite d) = Inr (Finite ke)"
    using d_pos ke_abs thr by (simp add: ke_def binary64_finite)
  have co: "float_prefilter_coefficients (Finite T) (Finite tau) = Inr (Finite km, Finite ke)"
    unfolding float_prefilter_coefficients_def m2 den num q1 q2 by simp
  have m3: "float_mul (Finite 2) (Finite ke) = Finite b"
    using b_abs thr by (simp add: b_def binary64_finite)
  have "\<bar>s\<bar> < overflow_threshold" using s29 thr by linarith
  then have sm: "float_add (Finite km) (Finite b) = Finite s"
    by (simp add: s_def binary64_finite)
  from co m3 sm bound show ?thesis by auto
qed

theorem coefficient_sum_rounded_witness:
  "(0::real) < 3 \<and> (0::real) < 1 / 4 \<and> min_normal \<le> 3 + 2 * (1 / 4) \<and>
   3 + 2 * (1 / 4) \<le> overflow_threshold / 2 \<and>
   (\<exists>km ke s.
      float_prefilter_coefficients (Finite 3) (Finite (1 / 4)) = Inr (Finite km, Finite ke) \<and>
      float_add (Finite km) (float_mul (Finite 2) (Finite ke)) = Finite s \<and>
      \<bar>s - 1\<bar> \<le> 1 / 2 ^ 48)"
proof -
  have T: "(0::real) < 3" and tau: "(0::real) < 1 / 4" by simp_all
  have lo: "min_normal \<le> 3 + 2 * (1 / 4)" using min_normal_le_one by simp
  have hi: "3 + 2 * (1 / 4) \<le> overflow_threshold / 2" using threshold_large by simp
  from coefficient_sum_rounded [OF T tau lo hi] T tau lo hi show ?thesis by blast
qed

text \<open>
  Claim C10 says that for \<open>0 < T < 2 * tau\<close> the coefficients are non-negative with
  \<open>kmlp + 2 * kelp = 1\<close>, so that inputs and a seed in \<open>[lo, hi]\<close> keep every output in
  \<open>[lo, hi]\<close>. With rounding an output can leave the interval: for \<open>T = 10 - 2^(-26)\<close>,
  \<open>tau = 5\<close> and the input \<open>[3, 3, 3]\<close>, which lies in \<open>[0, 3]\<close> as the seed 0 does, the
  loop computes \<open>y[2] = 3 + 2^(-51)\<close>, the float \<^verbatim>\<open>3.0000000000000004\<close>.
\<close>

theorem rounding_leaves_interval:
  "round_binary64 (671088639 / 67108864) = 671088639 / 67108864 \<and>
   (0::real) < 671088639 / 67108864 \<and> (671088639 / 67108864 :: real) < 2 * 5 \<and>
   (0::real) \<le> 0 \<and> (0::real) \<le> 3 \<and>
   float_prefilter_coefficients (Finite (671088639 / 67108864)) (Finite 5) =
     Inr (Finite (7205759409161503 / 9671406556917033397649408),
          Finite (4503599624015053 / 9007199254740992)) \<and>
   float_filter_loop (Finite (7205759409161503 / 9671406556917033397649408))
     (Finite (4503599624015053 / 9007199254740992)) [Finite 3, Finite 3, Finite 3] =
     [Finite 0, Finite (1688849859005645 / 562949953421312),
      Finite (6755399441055745 / 2251799813685248)] \<and>
   (3::real) < 6755399441055745 / 2251799813685248"
  by code_simp

text \<open>
  Claim C10, amended. For a binary64 number \<open>T\<close> with \<open>0 < T < 2 * tau\<close> for which the
  coefficient lines return finite coefficients, both computed coefficients are
  non-negative, and every output from index 1 on is the rounded combination
  \<^verbatim>\<open>y[i-1]*kmlp + kelp*(x[i] + x[i-1])\<close>. If all inputs and the seed output 0 lie in
  \<open>[lo, hi]\<close>, and one rounded step from the constant \<open>hi\<close> gives at most \<open>hi\<close> and one
  from the constant \<open>lo\<close> gives at least \<open>lo\<close>, then every output is finite and lies in
  \<open>[lo, hi]\<close>. The condition on the two constants is what rounding leaves of the identity
  \<open>kmlp + 2 * kelp = 1\<close>; it holds for the notebook's own \<^verbatim>\<open>Ts\<close> and \<^verbatim>\<open>tau_n\<close> on
  \<open>[0, 1]\<close>, and the interval is kept because rounding is monotone.
\<close>

theorem float_output_bounded:
  assumes bin: "round_binary64 T = T" and T: "0 < T" "T < 2 * tau"
    and co: "float_prefilter_coefficients (Finite T) (Finite tau) = Inr (Finite km, Finite ke)"
    and x: "\<forall>v\<in>set x. \<exists>r. v = Finite r \<and> lo \<le> r \<and> r \<le> hi"
    and seed: "lo \<le> 0" "0 \<le> hi"
    and top: "float_update (Finite km) (Finite ke) (Finite hi) (Finite hi) (Finite hi) = Finite h"
      "h \<le> hi"
    and bot: "float_update (Finite km) (Finite ke) (Finite lo) (Finite lo) (Finite lo) = Finite l"
      "lo \<le> l"
  shows "0 \<le> km \<and> 0 \<le> ke \<and>
         (\<forall>i. 0 < i \<and> i < length x \<longrightarrow>
            float_filter_loop (Finite km) (Finite ke) x ! i =
              float_update (Finite km) (Finite ke)
                (float_filter_loop (Finite km) (Finite ke) x ! (i - 1)) (x ! i) (x ! (i - 1))) \<and>
         (\<forall>v\<in>set (float_filter_loop (Finite km) (Finite ke) x).
            \<exists>r. v = Finite r \<and> lo \<le> r \<and> r \<le> hi)"
proof -
  from coefficients_nonneg [OF bin T co] have k: "0 \<le> km" "0 \<le> ke" by simp_all
  have 3: "\<exists>r. v = Finite r \<and> lo \<le> r \<and> r \<le> hi"
    if "v \<in> set (float_filter_loop (Finite km) (Finite ke) x)" for v
  proof -
    from that obtain i where "i < length x" "v = float_filter_loop (Finite km) (Finite ke) x ! i"
      by (auto simp: in_set_conv_nth float_filter_loop_length)
    then show ?thesis using float_loop_bounded [OF k top bot x seed] by simp
  qed
  from k 3 show ?thesis by (simp add: float_filter_loop_rec)
qed

theorem float_output_bounded_witness:
  "round_binary64 (7378697629483821 / 73786976294838206464) =
     7378697629483821 / 73786976294838206464 \<and>
   float_prefilter_coefficients (Finite (7378697629483821 / 73786976294838206464))
     (Finite (1 / 4)) =
     Inr (Finite (4501798547735475 / 4503599627370496),
          Finite (1844305546261703 / 9223372036854775808)) \<and>
   float_update (Finite (4501798547735475 / 4503599627370496))
     (Finite (1844305546261703 / 9223372036854775808)) (Finite 1) (Finite 1) (Finite 1) =
     Finite 1 \<and>
   (\<exists>r. float_filter_loop (Finite (4501798547735475 / 4503599627370496))
          (Finite (1844305546261703 / 9223372036854775808))
          [Finite 0, Finite 1, Finite 1] ! 2 = Finite r \<and> 0 \<le> r \<and> r \<le> 1)"
proof -
  let ?T = "7378697629483821 / 73786976294838206464 :: real"
  let ?km = "4501798547735475 / 4503599627370496 :: real"
  let ?ke = "1844305546261703 / 9223372036854775808 :: real"
  let ?x = "[Finite 0, Finite 1, Finite 1]"
  have bin: "round_binary64 ?T = ?T" by code_simp
  have T: "0 < ?T" "?T < 2 * (1 / 4)" by simp_all
  have co: "float_prefilter_coefficients (Finite ?T) (Finite (1 / 4)) = Inr (Finite ?km, Finite ?ke)"
    by code_simp
  have x: "\<forall>v\<in>set ?x. \<exists>r. v = Finite r \<and> 0 \<le> r \<and> r \<le> 1" by simp
  have seed: "(0::real) \<le> 0" "(0::real) \<le> 1" by simp_all
  have top: "float_update (Finite ?km) (Finite ?ke) (Finite 1) (Finite 1) (Finite 1) = Finite 1"
    "(1::real) \<le> 1" by code_simp simp
  have bot: "float_update (Finite ?km) (Finite ?ke) (Finite 0) (Finite 0) (Finite 0) = Finite 0"
    "(0::real) \<le> 0" by code_simp simp
  note t = float_output_bounded [OF bin T co x seed top bot]
  have "float_filter_loop (Finite ?km) (Finite ?ke) ?x ! 2
      \<in> set (float_filter_loop (Finite ?km) (Finite ?ke) ?x)"
    by (rule nth_mem) (simp add: float_filter_loop_length)
  with t have "\<exists>r. float_filter_loop (Finite ?km) (Finite ?ke) ?x ! 2 = Finite r \<and> 0 \<le> r \<and> r \<le> 1"
    by blast
  with bin co top show ?thesis by blast
qed

section \<open>Properties of the discrete PID controller\<close>

lemma update_integral:
  "integral_term (snd (DiscretePID_update c s e)) =
     integral_term s + k_ei c * (e + prev_error s) * (1 - of_bool (clamp c s e))"
  by (simp add: DiscretePID_update_def Let_def)

lemma update_deriv:
  "deriv_term (snd (DiscretePID_update c s e)) =
     k_md c * deriv_term s + k_ed c * (e - prev_error s)"
  by (simp add: DiscretePID_update_def Let_def deriv_next_def)

lemma update_prev_error: "prev_error (snd (DiscretePID_update c s e)) = e"
  by (simp add: DiscretePID_update_def Let_def)

lemma run_Cons:
  "snd (DiscretePID_run c s (e # es)) = snd (DiscretePID_run c (snd (DiscretePID_update c s e)) es)"
  by (simp add: split_beta Let_def)

lemma run_fst_Cons:
  "fst (DiscretePID_run c s (e # es)) =
     fst (DiscretePID_update c s e) # fst (DiscretePID_run c (snd (DiscretePID_update c s e)) es)"
  by (simp add: split_beta Let_def)

lemma DiscretePID_new_InrD:
  "DiscretePID_new kP kI kD wp T limit hard = Inr c \<Longrightarrow>
   0 < T \<and> 0 < wp \<and> 0 < limit \<and>
   c = \<lparr>kp = kP, k_ei = kI * T / 2, k_md = (2 - T * wp) / (T * wp + 2),
        k_ed = 2 * wp * kD / (T * wp + 2), output_limit = limit, hard_saturate = hard\<rparr>"
  by (auto simp: DiscretePID_new_def pid_coefficients_def split: if_splits)

lemma ramp_same_error:
  "prev_error s = e \<Longrightarrow> never_clamps c s (replicate n e) \<Longrightarrow>
   integral_term (snd (DiscretePID_run c s (replicate n e))) =
     integral_term s + k_ei c * 2 * e * real n"
proof (induction n arbitrary: s)
  case 0
  show ?case by simp
next
  case (Suc n)
  let ?s' = "snd (DiscretePID_update c s e)"
  from Suc.prems have nc: "\<not> clamp c s e" and rest: "never_clamps c ?s' (replicate n e)"
    by simp_all
  have pe: "prev_error ?s' = e" by (rule update_prev_error)
  have "integral_term (snd (DiscretePID_run c s (replicate (Suc n) e))) =
        integral_term (snd (DiscretePID_run c ?s' (replicate n e)))"
    by (simp only: replicate_Suc run_Cons)
  also have "\<dots> = integral_term ?s' + k_ei c * 2 * e * real n"
    by (rule Suc.IH [OF pe rest])
  also have "integral_term ?s' = integral_term s + k_ei c * (e + e)"
    using nc Suc.prems(1) by (simp add: update_integral)
  finally show ?case by (simp add: algebra_simps)
qed

lemma deriv_same_error:
  "prev_error s = e \<Longrightarrow>
   deriv_term (snd (DiscretePID_update c s e)) = k_md c * deriv_term s"
  by (simp add: update_deriv)

lemma deriv_run_same_error:
  "prev_error s = e \<Longrightarrow>
   deriv_term (snd (DiscretePID_run c s (replicate n e))) = k_md c ^ n * deriv_term s"
proof (induction n arbitrary: s)
  case 0
  show ?case by simp
next
  case (Suc n)
  let ?s' = "snd (DiscretePID_update c s e)"
  have pe: "prev_error ?s' = e" by (rule update_prev_error)
  have "deriv_term (snd (DiscretePID_run c s (replicate (Suc n) e))) =
        deriv_term (snd (DiscretePID_run c ?s' (replicate n e)))"
    by (simp only: replicate_Suc run_Cons)
  also have "\<dots> = k_md c ^ n * deriv_term ?s'"
    by (rule Suc.IH [OF pe])
  also have "deriv_term ?s' = k_md c * deriv_term s"
    using Suc.prems by (rule deriv_same_error)
  finally show ?case by simp
qed

lemma k_md_magnitude:
  fixes T wp :: real
  assumes "0 < T" "0 < wp"
  shows "\<bar>(2 - T * wp) / (T * wp + 2)\<bar> < 1"
proof -
  from assms have a: "0 < T * wp" by simp
  then have "\<bar>2 - T * wp\<bar> < T * wp + 2" by (simp add: abs_less_iff)
  with a show ?thesis by simp
qed

lemma proportional_step:
  assumes c: "kp c = 1" "k_ei c = 0" "k_ed c = 0" "output_limit c = 100"
    and s: "integral_term s = 0" "deriv_term s = 0"
  shows "DiscretePID_update c s 5 = (5, \<lparr>integral_term = 0, deriv_term = 0, prev_error = 5\<rparr>)"
  using c s by (simp add: DiscretePID_update_def Let_def deriv_next_def)

lemma proportional_run:
  assumes c: "kp c = 1" "k_ei c = 0" "k_ed c = 0" "output_limit c = 100"
  shows "integral_term s = 0 \<Longrightarrow> deriv_term s = 0 \<Longrightarrow>
         fst (DiscretePID_run c s (replicate n 5)) = replicate n 5"
proof (induction n arbitrary: s)
  case 0
  show ?case by simp
next
  case (Suc n)
  have up: "DiscretePID_update c s 5 = (5, \<lparr>integral_term = 0, deriv_term = 0, prev_error = 5\<rparr>)"
    using c Suc.prems by (rule proportional_step)
  have "fst (DiscretePID_run c \<lparr>integral_term = 0, deriv_term = 0, prev_error = 5\<rparr> (replicate n 5))
      = replicate n 5"
    by (rule Suc.IH) simp_all
  then show ?case
    by (simp only: replicate_Suc run_fst_Cons up fst_conv snd_conv)
qed

text \<open>
  Claim C7 says that the construction of the controller or of the pre-filter fails with an
  invalid-configuration error whenever \<open>T = 0\<close>, \<open>wp = 0\<close>, \<open>tau = 0\<close> or the output limit
  is not positive. The notebook's set-up validates nothing: with the notebook's own sample
  period (the float \<^verbatim>\<open>1/10_000\<close>) and \<open>tau_n = 0\<close>, on a machine that can allocate a
  million samples, it runs through and computes \<open>kmlp = -1\<close> and \<open>kelp = 1\<close>.
\<close>

theorem set_up_accepts_zero_tau:
  "float_filter_setup 1000000 (Finite (7378697629483821 / 73786976294838206464)) (Finite 0) =
     Inr \<lparr>total_samples = 10000, samples_off = 10000, kmlp = Finite (- 1), kelp = Finite 1\<rparr>"
  by code_simp

text \<open>
  Claim C7, amended. The construction of the controller, as the specification defines it,
  fails with an invalid-configuration error whenever \<open>T \<le> 0\<close>, \<open>wp \<le> 0\<close> or the output
  limit is not positive. The notebook's pre-filter set-up has no such error and no
  validation: for \<open>Ts = 0\<close> it fails with Python's \<^verbatim>\<open>ZeroDivisionError\<close>, and whenever
  the denominator \<^verbatim>\<open>Ts + 2*tau_n\<close> of the coefficient lines evaluates to zero it fails
  too, so that no division by zero is silent; but \<open>tau_n = 0\<close> is not rejected: for every
  positive binary64 number \<^verbatim>\<open>Ts\<close> whose sample count \<^verbatim>\<open>int(1/Ts)\<close> is finite and can be
  allocated, the set-up returns \<open>kmlp = -1\<close> and \<open>kelp = 1\<close>.
\<close>

theorem configuration_checks:
  "(T \<le> 0 \<or> wp \<le> 0 \<or> limit \<le> 0 \<longrightarrow>
      DiscretePID_new kP kI kD wp T limit hard = Inl InvalidConfiguration) \<and>
   float_filter_setup capacity (Finite 0) tau_n = Inl ZeroDivisionError \<and>
   (float_add Ts (float_mul (Finite 2) tau_n) = Finite 0 \<longrightarrow>
      (\<exists>err. float_filter_setup capacity Ts tau_n = Inl err)) \<and>
   (binary64 t = Finite t \<and> 0 < t \<and> binary64 (1 / t) = Finite q \<and> \<lfloor>q\<rfloor> \<le> capacity \<longrightarrow>
      float_filter_setup capacity (Finite t) (Finite 0) =
        Inr \<lparr>total_samples = \<lfloor>q\<rfloor>, samples_off = \<lfloor>q\<rfloor>,
             kmlp = Finite (- 1), kelp = Finite 1\<rparr>)"
proof -
  have 1: "DiscretePID_new kP kI kD wp T limit hard = Inl InvalidConfiguration"
    if "T \<le> 0 \<or> wp \<le> 0 \<or> limit \<le> 0"
    using that by (simp add: DiscretePID_new_def)
  have 2: "float_filter_setup capacity (Finite 0) tau_n = Inl ZeroDivisionError"
    by (simp add: float_filter_setup_def)
  have 3: "\<exists>err. float_filter_setup capacity Ts tau_n = Inl err"
    if "float_add Ts (float_mul (Finite 2) tau_n) = Finite 0"
    unfolding float_filter_setup_def Let_def zero_denominator [OF that]
    by (simp split: sum.splits)
  from 1 2 3 zero_tau_setup show ?thesis by blast
qed

theorem configuration_checks_witness:
  "DiscretePID_new 1 1 1 0 (1 / 100) 100 True = Inl InvalidConfiguration \<and>
   float_filter_setup 1000000 (Finite 0) (Finite (1 / 4)) = Inl ZeroDivisionError \<and>
   (\<exists>err. float_filter_setup 1000000 (Finite 1) (Finite (- (1 / 2))) = Inl err) \<and>
   float_filter_setup 1000000 (Finite (1 / 2)) (Finite 0) =
     Inr \<lparr>total_samples = 2, samples_off = 2, kmlp = Finite (- 1), kelp = Finite 1\<rparr>"
proof -
  note a = configuration_checks [where T = "1 / 100" and wp = 0 and limit = 100 and kP = 1
      and kI = 1 and kD = 1 and hard = True and capacity = 1000000 and tau_n = "Finite (1 / 4)"
      and Ts = "Finite 1" and t = "1 / 2" and q = 2]
  note b = configuration_checks [where T = "1 / 100" and wp = 0 and limit = 100 and kP = 1
      and kI = 1 and kD = 1 and hard = True and capacity = 1000000
      and tau_n = "Finite (- (1 / 2))" and Ts = "Finite 1" and t = "1 / 2" and q = 2]
  have z: "float_add (Finite 1) (float_mul (Finite 2) (Finite (- (1 / 2)))) = Finite 0"
    by code_simp
  have h: "binary64 (1 / 2) = Finite (1 / 2)" "binary64 (1 / (1 / 2)) = Finite 2" by code_simp+
  from a h have "DiscretePID_new 1 1 1 0 (1 / 100) 100 True = Inl InvalidConfiguration"
    "float_filter_setup 1000000 (Finite 0) (Finite (1 / 4)) = Inl ZeroDivisionError"
    "float_filter_setup 1000000 (Finite (1 / 2)) (Finite 0) =
       Inr \<lparr>total_samples = 2, samples_off = 2, kmlp = Finite (- 1), kelp = Finite 1\<rparr>"
    by simp_all
  moreover from b z have "\<exists>err. float_filter_setup 1000000 (Finite 1) (Finite (- (1 / 2))) = Inl err"
    by blast
  ultimately show ?thesis by blast
qed

text \<open>
  Claim C3. If on a tick the saturation check \<open>|m_tentative| > output_limit\<close> and the
  worsening check \<open>sign(e_n) = sign(m_tentative)\<close> both hold, the call leaves the
  integral term exactly as it was; otherwise the integral term becomes
  \<open>m_I + k_ei * (e_n + e_prev)\<close>. For a non-negative output limit the worsening check
  under saturation is the plain comparison of the two signs, since a saturating output is
  not zero.
\<close>

theorem anti_windup_freeze:
  "(saturating c s e \<and> integral_makes_worse c s e \<longrightarrow>
      integral_term (snd (DiscretePID_update c s e)) = integral_term s) \<and>
   (\<not> (saturating c s e \<and> integral_makes_worse c s e) \<longrightarrow>
      integral_term (snd (DiscretePID_update c s e)) =
        integral_term s + k_ei c * (e + prev_error s)) \<and>
   (0 \<le> output_limit c \<longrightarrow>
      (saturating c s e \<and> integral_makes_worse c s e \<longleftrightarrow>
       saturating c s e \<and> sgn e = sgn (m_tentative c s e)))"
proof -
  have "integral_makes_worse c s e \<longleftrightarrow> sgn e = sgn (m_tentative c s e)"
    if lim: "0 \<le> output_limit c" and sat: "saturating c s e"
  proof -
    from lim sat have nz: "m_tentative c s e \<noteq> 0"
      by (auto simp: saturating_def)
    then have "sgn (m_tentative c s e) \<noteq> 0" by (simp add: sgn_zero_iff)
    then have "e \<noteq> 0" if "sgn e = sgn (m_tentative c s e)"
      using that by auto
    with nz show ?thesis by (auto simp: integral_makes_worse_def)
  qed
  then show ?thesis
    by (auto simp: update_integral clamp_def)
qed

theorem anti_windup_freeze_witness:
  "saturating \<lparr>kp = 1, k_ei = 1, k_md = 0, k_ed = 0, output_limit = 1, hard_saturate = True\<rparr>
     \<lparr>integral_term = 3, deriv_term = 0, prev_error = 0\<rparr> 5 \<and>
   integral_makes_worse
     \<lparr>kp = 1, k_ei = 1, k_md = 0, k_ed = 0, output_limit = 1, hard_saturate = True\<rparr>
     \<lparr>integral_term = 3, deriv_term = 0, prev_error = 0\<rparr> 5 \<and>
   integral_term (snd (DiscretePID_update
     \<lparr>kp = 1, k_ei = 1, k_md = 0, k_ed = 0, output_limit = 1, hard_saturate = True\<rparr>
     \<lparr>integral_term = 3, deriv_term = 0, prev_error = 0\<rparr> 5)) = 3"
proof -
  let ?c = "\<lparr>kp = 1, k_ei = 1, k_md = 0, k_ed = 0, output_limit = 1, hard_saturate = True\<rparr>"
  let ?s = "\<lparr>integral_term = 3, deriv_term = 0, prev_error = 0\<rparr>"
  have sat: "saturating ?c ?s 5"
    by (simp add: saturating_def m_tentative_def deriv_next_def)
  have worse: "integral_makes_worse ?c ?s 5"
    by (simp add: integral_makes_worse_def m_tentative_def deriv_next_def)
  from anti_windup_freeze [of ?c ?s 5] sat worse
  have "integral_term (snd (DiscretePID_update ?c ?s 5)) = integral_term ?s" by blast
  with sat worse show ?thesis by simp
qed

text \<open>
  Claim C4 says that \<open>n\<close> calls with a constant non-zero error and no clamping bring the
  integral term to \<open>m_I_0 + k_ei * 2 * e * n\<close> exactly. The first of the calls adds
  \<open>k_ei * (e + e_prev)\<close> with the error stored before it, which need not be \<open>e\<close>: from
  the zero state, with \<open>ki = 2\<close>, \<open>T = 1\<close> (so \<open>k_ei = 1\<close>) and three calls with error 1,
  the integral term is 5 and not 6.
\<close>

theorem first_call_offset:
  "DiscretePID_new 0 2 0 1 1 100 False =
     Inr \<lparr>kp = 0, k_ei = 1, k_md = 1 / 3, k_ed = 0, output_limit = 100, hard_saturate = False\<rparr> \<and>
   (1::real) \<noteq> 0 \<and>
   never_clamps
     \<lparr>kp = 0, k_ei = 1, k_md = 1 / 3, k_ed = 0, output_limit = 100, hard_saturate = False\<rparr>
     \<lparr>integral_term = 0, deriv_term = 0, prev_error = 0\<rparr> [1, 1, 1] \<and>
   integral_term (snd (DiscretePID_run
     \<lparr>kp = 0, k_ei = 1, k_md = 1 / 3, k_ed = 0, output_limit = 100, hard_saturate = False\<rparr>
     \<lparr>integral_term = 0, deriv_term = 0, prev_error = 0\<rparr> [1, 1, 1])) = 5 \<and>
   integral_term (snd (DiscretePID_run
     \<lparr>kp = 0, k_ei = 1, k_md = 1 / 3, k_ed = 0, output_limit = 100, hard_saturate = False\<rparr>
     \<lparr>integral_term = 0, deriv_term = 0, prev_error = 0\<rparr> [1, 1, 1])) \<noteq>
   integral_term \<lparr>integral_term = 0, deriv_term = 0, prev_error = 0\<rparr>
     + k_ei \<lparr>kp = 0, k_ei = 1, k_md = 1 / 3, k_ed = 0, output_limit = 100,
            hard_saturate = False\<rparr> * 2 * 1 * 3"
  by (simp add: DiscretePID_new_def pid_coefficients_def clamp_def saturating_def
      m_tentative_def deriv_next_def DiscretePID_update_def)

text \<open>
  Claim C4, amended. After \<open>n \<ge> 1\<close> calls with a constant error \<open>e\<close> during which the
  clamp condition never holds, the integral term is
  \<open>m_I_0 + k_ei * 2 * e * n - k_ei * (e - e_prev)\<close>, where \<open>e_prev\<close> is the error stored
  before the first call and \<open>k_ei = ki * T / 2\<close>; the ramp \<open>m_I_0 + k_ei * 2 * e * n\<close> is
  exact when the stored error already is \<open>e\<close>.
\<close>

theorem integral_ramp:
  assumes new: "DiscretePID_new kP kI kD wp T limit hard = Inr c"
    and n: "0 < n" and nc: "never_clamps c s (replicate n e)"
  shows "k_ei c = kI * T / 2 \<and>
         integral_term (snd (DiscretePID_run c s (replicate n e))) =
           integral_term s + k_ei c * 2 * e * real n - k_ei c * (e - prev_error s)"
proof -
  from n obtain m where m: "n = Suc m" by (cases n) simp_all
  let ?s' = "snd (DiscretePID_update c s e)"
  from nc m have c0: "\<not> clamp c s e" and rest: "never_clamps c ?s' (replicate m e)"
    by simp_all
  have pe: "prev_error ?s' = e" by (rule update_prev_error)
  have "integral_term (snd (DiscretePID_run c s (replicate n e))) =
        integral_term (snd (DiscretePID_run c ?s' (replicate m e)))"
    unfolding m by (simp only: replicate_Suc run_Cons)
  also have "\<dots> = integral_term ?s' + k_ei c * 2 * e * real m"
    by (rule ramp_same_error [OF pe rest])
  also have "integral_term ?s' = integral_term s + k_ei c * (e + prev_error s)"
    using c0 by (simp add: update_integral)
  finally have "integral_term (snd (DiscretePID_run c s (replicate n e))) =
      integral_term s + k_ei c * 2 * e * real n - k_ei c * (e - prev_error s)"
    by (simp add: m algebra_simps)
  moreover from new have "k_ei c = kI * T / 2"
    by (auto dest: DiscretePID_new_InrD)
  ultimately show ?thesis by simp
qed

theorem integral_ramp_witness:
  "DiscretePID_new 0 2 0 1 1 100 False =
     Inr \<lparr>kp = 0, k_ei = 1, k_md = 1 / 3, k_ed = 0, output_limit = 100, hard_saturate = False\<rparr> \<and>
   (0::nat) < 3 \<and>
   never_clamps
     \<lparr>kp = 0, k_ei = 1, k_md = 1 / 3, k_ed = 0, output_limit = 100, hard_saturate = False\<rparr>
     pid_initial (replicate 3 1) \<and>
   integral_term (snd (DiscretePID_run
     \<lparr>kp = 0, k_ei = 1, k_md = 1 / 3, k_ed = 0, output_limit = 100, hard_saturate = False\<rparr>
     pid_initial (replicate 3 1))) = 5"
proof -
  let ?c = "\<lparr>kp = 0, k_ei = 1, k_md = 1 / 3, k_ed = 0, output_limit = 100,
             hard_saturate = False\<rparr>"
  have new: "DiscretePID_new 0 2 0 1 1 100 False = Inr ?c"
    by (simp add: DiscretePID_new_def pid_coefficients_def)
  have n: "(0::nat) < 3" by simp
  have nc: "never_clamps ?c pid_initial (replicate 3 1)"
    by (simp add: numeral_3_eq_3 pid_initial_def clamp_def saturating_def m_tentative_def
        deriv_next_def DiscretePID_update_def)
  from integral_ramp [OF new n nc] new n nc show ?thesis
    by (simp add: pid_initial_def)
qed

text \<open>
  Claim C5. Once a call has received the error \<open>e\<close>, the second and every further call
  with the same error multiply the derivative term by \<open>k_md = (2 - T*wp)/(T*wp + 2)\<close>:
  after \<open>n\<close> such calls it is \<open>k_md ^ n\<close> times what it was, and \<open>|k_md| < 1\<close> for a
  constructed controller, so it decays geometrically towards zero.
\<close>

theorem derivative_decay:
  assumes new: "DiscretePID_new kP kI kD wp T limit hard = Inr c"
  shows "k_md c = (2 - T * wp) / (T * wp + 2) \<and> \<bar>k_md c\<bar> < 1 \<and>
         deriv_term (snd (DiscretePID_update c (snd (DiscretePID_update c s e)) e)) =
           k_md c * deriv_term (snd (DiscretePID_update c s e)) \<and>
         deriv_term (snd (DiscretePID_run c (snd (DiscretePID_update c s e)) (replicate n e))) =
           k_md c ^ n * deriv_term (snd (DiscretePID_update c s e))"
proof -
  from new have pos: "0 < T" "0 < wp" and kmd: "k_md c = (2 - T * wp) / (T * wp + 2)"
    by (auto dest: DiscretePID_new_InrD)
  have pe: "prev_error (snd (DiscretePID_update c s e)) = e" by (rule update_prev_error)
  from kmd k_md_magnitude [OF pos] deriv_same_error [OF pe, of c] deriv_run_same_error [OF pe, of c n]
  show ?thesis by simp
qed

theorem derivative_decay_witness:
  "DiscretePID_new 1 0 3 1 1 100 True =
     Inr \<lparr>kp = 1, k_ei = 0, k_md = 1 / 3, k_ed = 2, output_limit = 100, hard_saturate = True\<rparr> \<and>
   deriv_term (snd (DiscretePID_update
     \<lparr>kp = 1, k_ei = 0, k_md = 1 / 3, k_ed = 2, output_limit = 100, hard_saturate = True\<rparr>
     (snd (DiscretePID_update
        \<lparr>kp = 1, k_ei = 0, k_md = 1 / 3, k_ed = 2, output_limit = 100, hard_saturate = True\<rparr>
        pid_initial 6)) 6)) = 4"
proof -
  let ?c = "\<lparr>kp = 1, k_ei = 0, k_md = 1 / 3, k_ed = 2, output_limit = 100,
             hard_saturate = True\<rparr>"
  have new: "DiscretePID_new 1 0 3 1 1 100 True = Inr ?c"
    by (simp add: DiscretePID_new_def pid_coefficients_def)
  have first: "deriv_term (snd (DiscretePID_update ?c pid_initial 6)) = 12"
    by (simp add: update_deriv pid_initial_def)
  from derivative_decay [OF new, of pid_initial 6 0] first new show ?thesis by simp
qed

text \<open>
  Claim C6. With \<open>kp = 1\<close>, \<open>ki = 0\<close>, \<open>kd = 0\<close>, \<open>T = 0.01\<close>, an output limit of 100
  and any admissible pole frequency, the controller started from the zero state returns
  exactly 5 on every call of a run with constant error 5, with and without the hard
  saturation.
\<close>

theorem pure_proportional:
  assumes new: "DiscretePID_new 1 0 0 wp (1 / 100) 100 hard = Inr c"
  shows "fst (DiscretePID_run c pid_initial (replicate n 5)) = replicate n 5"
proof -
  from new have
    "c = \<lparr>kp = 1, k_ei = 0 * (1 / 100) / 2, k_md = (2 - 1 / 100 * wp) / (1 / 100 * wp + 2),
          k_ed = 2 * wp * 0 / (1 / 100 * wp + 2), output_limit = 100, hard_saturate = hard\<rparr>"
    by (auto dest: DiscretePID_new_InrD)
  then have c: "kp c = 1" "k_ei c = 0" "k_ed c = 0" "output_limit c = 100"
    by simp_all
  show ?thesis
    by (rule proportional_run [OF c]) (simp_all add: pid_initial_def)
qed

theorem pure_proportional_witness:
  "DiscretePID_new 1 0 0 40 (1 / 100) 100 True =
     Inr \<lparr>kp = 1, k_ei = 0, k_md = 2 / 3, k_ed = 0, output_limit = 100, hard_saturate = True\<rparr> \<and>
   fst (DiscretePID_run
     \<lparr>kp = 1, k_ei = 0, k_md = 2 / 3, k_ed = 0, output_limit = 100, hard_saturate = True\<rparr>
     pid_initial (replicate 3 5)) = [5, 5, 5]"
proof -
  let ?c = "\<lparr>kp = 1, k_ei = 0, k_md = 2 / 3, k_ed = 0, output_limit = 100,
             hard_saturate = True\<rparr>"
  have new: "DiscretePID_new 1 0 0 40 (1 / 100) 100 True = Inr ?c"
    by (simp add: DiscretePID_new_def pid_coefficients_def)
  from pure_proportional [OF new, of 3] new show ?thesis
    by (simp add: numeral_3_eq_3)
qed

end
